theory Spec2Isabelle
  imports Main "HOL-Library.Word"
begin

unbundle bit_operations_syntax

section \<open>Strings\<close>

text \<open>
  A Go string is a sequence of bytes, and so is \<open>string\<close> here: one \<open>char\<close> per byte.
  The helpers below are the functions of Go's \<open>strings\<close> and \<open>bufio\<close> packages that
  \<open>auth.go\<close> and the exporter's main file call.
\<close>

abbreviation (input) newline :: char where "newline \<equiv> CHR 0x0A"
abbreviation (input) backslash :: char where "backslash \<equiv> CHR 0x5C"
abbreviation (input) dquote :: char where "dquote \<equiv> CHR 0x22"

definition byte :: "char \<Rightarrow> nat" where
  "byte c = of_char c"

definition between :: "char \<Rightarrow> char \<Rightarrow> char \<Rightarrow> bool" where
  "between lo hi c = (byte lo \<le> byte c \<and> byte c \<le> byte hi)"

definition is_digit :: "char \<Rightarrow> bool" where
  "is_digit c = between (CHR ''0'') (CHR ''9'') c"

text \<open>\<open>isalnum\<close> of regexp/syntax: ASCII letters and digits, not the underscore.\<close>

definition isalnum :: "char \<Rightarrow> bool" where
  "isalnum c = (between (CHR ''0'') (CHR ''9'') c \<or> between (CHR ''A'') (CHR ''Z'') c
                \<or> between (CHR ''a'') (CHR ''z'') c)"

text \<open>\<open>strings.Split(s, sep)\<close> for a separator of one byte: one more piece than separators.\<close>

fun Split :: "string \<Rightarrow> char \<Rightarrow> string list" where
  "Split [] sep = [[]]"
| "Split (c # cs) sep =
     (if c = sep then [] # Split cs sep
      else (case Split cs sep of [] \<Rightarrow> [[c]] | p # ps \<Rightarrow> (c # p) # ps))"

text \<open>\<open>strings.Trim(s, " ")\<close>: leading and trailing spaces removed (only the space byte).\<close>

definition Trim :: "string \<Rightarrow> string" where
  "Trim s = rev (dropWhile (\<lambda>c. c = CHR '' '') (rev (dropWhile (\<lambda>c. c = CHR '' '') s)))"

text \<open>\<open>strings.Replace(s, ",", ".", -1)\<close>: every comma becomes a full stop.\<close>

definition Replace_comma :: "string \<Rightarrow> string" where
  "Replace_comma s = map (\<lambda>c. if c = CHR '','' then CHR ''.'' else c) s"

text \<open>
  \<open>strings.ToLower\<close> on ASCII letters. Go also maps letters beyond ASCII; no such letter
  lowers to a letter of the word the result is compared with, \<open>bearer\<close>, so the comparison
  of \<open>auth\<close> comes out the same.
\<close>

definition lower_char :: "char \<Rightarrow> char" where
  "lower_char c = (if between (CHR ''A'') (CHR ''Z'') c then char_of (byte c + 32) else c)"

definition ToLower :: "string \<Rightarrow> string" where
  "ToLower s = map lower_char s"

text \<open>
  \<open>bufio.Scanner\<close> with the default split function \<open>ScanLines\<close>: the text is cut at every
  newline, a final piece that is empty is no line, one trailing carriage return is dropped
  from each line, and scanning stops (with an error the handler never looks at) at the
  first line of \<open>MaxScanTokenSize\<close> = 65536 bytes or more.
\<close>

definition raw_lines :: "string \<Rightarrow> string list" where
  "raw_lines s = (let ps = Split s newline in if last ps = [] then butlast ps else ps)"

definition dropCR :: "string \<Rightarrow> string" where
  "dropCR l = (if l \<noteq> [] \<and> last l = CHR 0x0D then butlast l else l)"

definition scan_lines :: "string \<Rightarrow> string list" where
  "scan_lines s = map dropCR (takeWhile (\<lambda>l. length l < 65536) (raw_lines s))"

section \<open>The regular expressions of Go's regexp package\<close>

text \<open>
  \<open>metricsHandler\<close> builds two regular expressions from the \<open>prefix\<close> query parameter and
  matches every sample line against them. The package is modelled in three parts: the
  syntax tree (\<open>regexp\<close>), the parser of regexp/syntax with the flags \<open>regexp.Compile\<close>
  passes (Perl syntax, \<open>OneLine\<close>), and the matcher with the package's leftmost-first rule
  (the match a backtracking search would find first).

  The parser covers a fragment of the syntax and says so: a source outside the fragment
  gives \<open>Unmodelled\<close>, which stands for no statement at all, while \<open>Err\<close> is an error
  the package really returns and \<open>Ok\<close> a tree it really builds (up to the package's own
  simplifications, which keep the matches). Outside the fragment: bytes beyond ASCII in
  the pattern, groups opening with \<open>(?\<close>, counted repetitions \<open>{n,m}\<close>, non-greedy
  repetitions, repetitions of an expression that can match the empty string, escapes
  by a letter or digit other than \<open>\\d \\w \\s \\D \\W \\S \\a \\f \\n \\r \\t \\v\<close>, and
  inside brackets named classes and the negated Perl classes.
\<close>

datatype 'a outcome = Ok 'a | Err string | Unmodelled

datatype regexp =
    NoMatch
  | EmptyMatch
  | Literal char
  | CharClass bool "(char \<times> char) list"
  | AnyCharNotNL
  | BeginText
  | EndText
  | Capture regexp
  | Star regexp
  | Plus regexp
  | Quest regexp
  | Concat regexp regexp
  | Alternate regexp regexp

text \<open>The Perl classes: \<open>\\d\<close>, \<open>\\w\<close> and \<open>\\s\<close> (tab, newline, form feed, return, space).\<close>

definition perl_d :: "(char \<times> char) list" where
  "perl_d = [(CHR ''0'', CHR ''9'')]"

definition perl_w :: "(char \<times> char) list" where
  "perl_w = [(CHR ''0'', CHR ''9''), (CHR ''A'', CHR ''Z''), (CHR ''_'', CHR ''_''),
             (CHR ''a'', CHR ''z'')]"

definition perl_s :: "(char \<times> char) list" where
  "perl_s = [(CHR 0x09, CHR 0x0A), (CHR 0x0C, CHR 0x0D), (CHR '' '', CHR '' '')]"

fun in_ranges :: "(char \<times> char) list \<Rightarrow> char \<Rightarrow> bool" where
  "in_ranges [] c = False"
| "in_ranges ((lo, hi) # rs) c = (between lo hi c \<or> in_ranges rs c)"

subsection \<open>Runes\<close>

text \<open>
  The matcher reads the text rune by rune, as \<open>utf8.DecodeRuneInString\<close> cuts it: a
  well-formed UTF-8 sequence of up to four bytes is one rune, any other byte is a rune
  of its own (the replacement character).
\<close>

definition cont :: "char \<Rightarrow> bool" where
  "cont c = (0x80 \<le> byte c \<and> byte c \<le> 0xBF)"

fun rune_width :: "string \<Rightarrow> nat" where
  "rune_width [] = 0"
| "rune_width (c # cs) =
     (let b = byte c in
      if b < 0xC2 then 1
      else if b < 0xE0 then
        (case cs of c1 # _ \<Rightarrow> if cont c1 then 2 else 1 | _ \<Rightarrow> 1)
      else if b < 0xF0 then
        (case cs of
           c1 # c2 # _ \<Rightarrow>
             if (if b = 0xE0 then 0xA0 else 0x80) \<le> byte c1
                \<and> byte c1 \<le> (if b = 0xED then 0x9F else 0xBF) \<and> cont c2
             then 3 else 1
         | _ \<Rightarrow> 1)
      else if b < 0xF5 then
        (case cs of
           c1 # c2 # c3 # _ \<Rightarrow>
             if (if b = 0xF0 then 0x90 else 0x80) \<le> byte c1
                \<and> byte c1 \<le> (if b = 0xF4 then 0x8F else 0xBF) \<and> cont c2 \<and> cont c3
             then 4 else 1
         | _ \<Rightarrow> 1)
      else 1)"

definition rune_rest :: "string \<Rightarrow> string" where
  "rune_rest s = drop (rune_width s) s"

subsection \<open>The matcher\<close>

text \<open>
  \<open>ends re b s\<close> lists what is left of the text \<open>s\<close> after each way \<open>re\<close> can match at
  its start, in the order a backtracking search tries them: the first alternative before
  the second, one more round of a repetition before leaving it. \<open>b\<close> says that \<open>s\<close> starts
  at the beginning of the whole text, where alone \<open>^\<close> matches. A round of a repetition
  that consumes nothing is not repeated.
\<close>

fun weight :: "regexp \<Rightarrow> nat" where
  "weight (Capture r) = Suc (weight r)"
| "weight (Star r) = Suc (weight r)"
| "weight (Plus r) = Suc (Suc (weight r))"
| "weight (Quest r) = Suc (weight r)"
| "weight (Concat r1 r2) = Suc (weight r1 + weight r2)"
| "weight (Alternate r1 r2) = Suc (weight r1 + weight r2)"
| "weight _ = 0"

function ends :: "regexp \<Rightarrow> bool \<Rightarrow> string \<Rightarrow> string list" where
  "ends NoMatch b s = []"
| "ends EmptyMatch b s = [s]"
| "ends (Literal c) b s = (case s of [] \<Rightarrow> [] | x # t \<Rightarrow> if x = c then [t] else [])"
| "ends (CharClass neg rs) b s =
     (case s of [] \<Rightarrow> [] | x # t \<Rightarrow> if in_ranges rs x \<noteq> neg then [rune_rest s] else [])"
| "ends AnyCharNotNL b s =
     (case s of [] \<Rightarrow> [] | x # t \<Rightarrow> if x = newline then [] else [rune_rest s])"
| "ends BeginText b s = (if b then [s] else [])"
| "ends EndText b s = (if s = [] then [s] else [])"
| "ends (Capture r) b s = ends r b s"
| "ends (Star r) b s =
     concat (map (\<lambda>t. if length t < length s then ends (Star r) False t else []) (ends r b s))
     @ [s]"
| "ends (Plus r) b s =
     concat (map (\<lambda>t. ends (Star r) (b \<and> length t = length s) t) (ends r b s))"
| "ends (Quest r) b s = ends r b s @ [s]"
| "ends (Concat r1 r2) b s =
     concat (map (\<lambda>t. ends r2 (b \<and> length t = length s) t) (ends r1 b s))"
| "ends (Alternate r1 r2) b s = ends r1 b s @ ends r2 b s"
  by pat_completeness auto
termination
  by (relation "inv_image (less_than <*lex*> less_than) (\<lambda>(r, b, s). (weight r, length s))")
     auto

text \<open>
  The search of \<open>doExecute\<close>: the leftmost start, rune by rune, at which the expression
  matches, with the first of its matches there. The result is the text from the start of
  the match and the text after the match.
\<close>

fun find_from :: "regexp \<Rightarrow> bool \<Rightarrow> string \<Rightarrow> (string \<times> string) option" where
  "find_from re b [] = (case ends re b [] of [] \<Rightarrow> None | t # _ \<Rightarrow> Some ([], t))"
| "find_from re b (c # cs) =
     (case ends re b (c # cs) of
        [] \<Rightarrow> find_from re False (drop (rune_width (c # cs) - 1) cs)
      | t # _ \<Rightarrow> Some (c # cs, t))"

text \<open>\<open>(*Regexp).MatchString\<close>: is there a match anywhere in the text.\<close>

definition MatchString :: "regexp \<Rightarrow> string \<Rightarrow> bool" where
  "MatchString re s = (find_from re True s \<noteq> None)"

text \<open>
  \<open>(*Regexp).FindAllString(s, -1)\<close>, the loop of \<open>allMatches\<close>: successive matches that do
  not overlap. \<open>prev\<close> is where the previous match ended (as the length of the text
  after it); an empty match right there is passed over. After an empty match the search
  moves on by one rune. The test \<open>length t < length s\<close> always holds where it stands (a
  match that is not empty ends further on); it is there for the recursion.
\<close>

function allMatches :: "regexp \<Rightarrow> bool \<Rightarrow> string \<Rightarrow> nat option \<Rightarrow> string list" where
  "allMatches re b s prev =
     (case find_from re b s of
        None \<Rightarrow> []
      | Some (u, t) \<Rightarrow>
          (if length t = length s \<and> Some (length u) = prev then []
           else [take (length u - length t) u])
          @ (if length t = length s
             then (case s of [] \<Rightarrow> []
                   | c # cs \<Rightarrow> allMatches re False (drop (rune_width s - 1) cs) (Some (length t)))
             else if length t < length s then allMatches re False t (Some (length t))
             else []))"
  by pat_completeness auto
termination
  by (relation "measure (\<lambda>(re, b, s, prev). length s)") auto

definition FindAllString :: "regexp \<Rightarrow> string \<Rightarrow> string list" where
  "FindAllString re s = allMatches re True s None"

subsection \<open>The parser\<close>

text \<open>
  The parser of regexp/syntax keeps a stack of the expressions read so far, with a marker
  for each open parenthesis and one for a vertical bar; the head of the list is the top
  of the stack.
\<close>

datatype item = Rx regexp | LeftParen | VerticalBar

fun concat_of :: "regexp list \<Rightarrow> regexp" where
  "concat_of [] = EmptyMatch"
| "concat_of [r] = r"
| "concat_of (r # rs) = Concat r (concat_of rs)"

fun alternate_of :: "regexp list \<Rightarrow> regexp" where
  "alternate_of [] = NoMatch"
| "alternate_of [r] = r"
| "alternate_of (r # rs) = Alternate r (alternate_of rs)"

text \<open>The expressions above the topmost marker, in the order read, and the stack below.\<close>

fun above :: "item list \<Rightarrow> regexp list \<times> item list" where
  "above (Rx r # st) = (case above st of (rs, st') \<Rightarrow> (rs @ [r], st'))"
| "above st = ([], st)"

definition p_concat :: "item list \<Rightarrow> item list" where
  "p_concat st = (case above st of (subs, st') \<Rightarrow> Rx (concat_of subs) # st')"

definition p_alternate :: "item list \<Rightarrow> item list" where
  "p_alternate st = (case above st of (subs, st') \<Rightarrow> Rx (alternate_of subs) # st')"

definition swapVerticalBar :: "item list \<Rightarrow> bool \<times> item list" where
  "swapVerticalBar st =
     (case st of
        re1 # VerticalBar # st' \<Rightarrow> (True, VerticalBar # re1 # st')
      | _ \<Rightarrow> (False, st))"

definition parseVerticalBar :: "item list \<Rightarrow> item list" where
  "parseVerticalBar st =
     (case swapVerticalBar (p_concat st) of
        (True, st1) \<Rightarrow> st1
      | (False, st1) \<Rightarrow> VerticalBar # st1)"

text \<open>
  What the parser does at a closing parenthesis and at the end of the pattern:
  concatenate, drop the vertical bar, alternate.
\<close>

definition close_group :: "item list \<Rightarrow> item list" where
  "close_group st =
     (case swapVerticalBar (p_concat st) of
        (True, st1) \<Rightarrow> p_alternate (tl st1)
      | (False, st1) \<Rightarrow> p_alternate st1)"

definition parseRightParen :: "item list \<Rightarrow> item list outcome" where
  "parseRightParen st =
     (case close_group st of
        Rx r # LeftParen # st' \<Rightarrow> Ok (Rx (Capture r) # st')
      | _ \<Rightarrow> Err ''unexpected )'')"

fun nullable :: "regexp \<Rightarrow> bool" where
  "nullable NoMatch = False"
| "nullable EmptyMatch = True"
| "nullable (Literal c) = False"
| "nullable (CharClass neg rs) = False"
| "nullable AnyCharNotNL = False"
| "nullable BeginText = True"
| "nullable EndText = True"
| "nullable (Capture r) = nullable r"
| "nullable (Star r) = True"
| "nullable (Plus r) = nullable r"
| "nullable (Quest r) = True"
| "nullable (Concat r1 r2) = (nullable r1 \<and> nullable r2)"
| "nullable (Alternate r1 r2) = (nullable r1 \<or> nullable r2)"

text \<open>
  \<open>repeat\<close>: a repetition operator applies to the expression on top of the stack;
  \<open>after\<close> is the pattern after the operator, \<open>lastRepeat\<close> says that the previous token
  was a repetition operator too.
\<close>

definition p_repeat ::
  "(regexp \<Rightarrow> regexp) \<Rightarrow> string \<Rightarrow> item list \<Rightarrow> bool \<Rightarrow> item list outcome" where
  "p_repeat op after st lastRepeat =
     (if lastRepeat then Err ''invalid nested repetition operator''
      else (case st of
              Rx sub # st' \<Rightarrow>
                if take 1 after = ''?'' \<or> nullable sub then Unmodelled
                else Ok (Rx (op sub) # st')
            | _ \<Rightarrow> Err ''missing argument to repetition operator''))"

text \<open>
  \<open>parseRepeat\<close>, on the pattern after the brace: does a counted repetition \<open>{n}\<close>,
  \<open>{n,}\<close> or \<open>{n,m}\<close> stand here. Where it does not, the brace is a literal.
\<close>

definition parseInt :: "string \<Rightarrow> string option" where
  "parseInt s =
     (case s of
        [] \<Rightarrow> None
      | c # cs \<Rightarrow>
          if \<not> is_digit c then None
          else if c = CHR ''0'' \<and> cs \<noteq> [] \<and> is_digit (hd cs) then None
          else Some (dropWhile is_digit s))"

definition parseRepeat_ok :: "string \<Rightarrow> bool" where
  "parseRepeat_ok s =
     (case parseInt s of
        None \<Rightarrow> False
      | Some s1 \<Rightarrow>
          (case s1 of
             [] \<Rightarrow> False
           | c # s2 \<Rightarrow>
               if c \<noteq> CHR '','' then c = CHR ''}''
               else (case s2 of
                       [] \<Rightarrow> False
                     | d # s3 \<Rightarrow>
                         if d = CHR ''}'' then True
                         else (case parseInt s2 of
                                 None \<Rightarrow> False
                               | Some s4 \<Rightarrow> take 1 s4 = ''}''))))"

text \<open>
  \<open>parseEscape\<close>, on the byte after the backslash: a byte that is no letter or digit
  stands for itself, six letters for control characters.
\<close>

definition escape_char :: "char \<Rightarrow> char outcome" where
  "escape_char c =
     (if \<not> isalnum c then Ok c
      else if c = CHR ''a'' then Ok (CHR 0x07)
      else if c = CHR ''f'' then Ok (CHR 0x0C)
      else if c = CHR ''n'' then Ok (CHR 0x0A)
      else if c = CHR ''r'' then Ok (CHR 0x0D)
      else if c = CHR ''t'' then Ok (CHR 0x09)
      else if c = CHR ''v'' then Ok (CHR 0x0B)
      else Unmodelled)"

definition perl_class :: "char \<Rightarrow> (bool \<times> (char \<times> char) list) option" where
  "perl_class c =
     (if c = CHR ''d'' then Some (False, perl_d)
      else if c = CHR ''D'' then Some (True, perl_d)
      else if c = CHR ''w'' then Some (False, perl_w)
      else if c = CHR ''W'' then Some (True, perl_w)
      else if c = CHR ''s'' then Some (False, perl_s)
      else if c = CHR ''S'' then Some (True, perl_s)
      else None)"

text \<open>\<open>parseClassChar\<close>: one character of a bracket expression, and the bytes it took.\<close>

definition parseClassChar :: "string \<Rightarrow> (char \<times> nat) outcome" where
  "parseClassChar s =
     (case s of
        [] \<Rightarrow> Err ''missing closing ]''
      | c # cs \<Rightarrow>
          if c = backslash then
            (case cs of
               [] \<Rightarrow> Err ''trailing backslash at end of expression''
             | e # _ \<Rightarrow>
                 (case escape_char e of
                    Ok x \<Rightarrow> Ok (x, 2)
                  | Err m \<Rightarrow> Err m
                  | Unmodelled \<Rightarrow> Unmodelled))
          else Ok (c, 1))"

text \<open>
  One round of the loop of \<open>parseClass\<close>, on what is left of the bracket expression: a
  Perl class, a single character or a range; the ranges it adds to the class and the
  number of bytes it read.
\<close>

definition class_item :: "string \<Rightarrow> ((char \<times> char) list \<times> nat) outcome" where
  "class_item s =
     (if take 1 s = ''['' \<and> 2 < length s \<and> take 1 (tl s) = '':'' then Unmodelled
      else if take 1 s = [backslash] \<and> 2 \<le> length s \<and> perl_class (hd (tl s)) \<noteq> None then
        (case perl_class (hd (tl s)) of
           Some (False, rs) \<Rightarrow> Ok (rs, 2)
         | _ \<Rightarrow> Unmodelled)
      else
        (case parseClassChar s of
           Err m \<Rightarrow> Err m
         | Unmodelled \<Rightarrow> Unmodelled
         | Ok (lo, n) \<Rightarrow>
             (let t = drop n s in
              if 2 \<le> length t \<and> take 1 t = ''-'' \<and> take 1 (tl t) \<noteq> '']'' then
                (case parseClassChar (tl t) of
                   Err m \<Rightarrow> Err m
                 | Unmodelled \<Rightarrow> Unmodelled
                 | Ok (hi, m) \<Rightarrow>
                     if byte hi < byte lo then Err ''invalid character class range''
                     else Ok ([(lo, hi)], n + 1 + m))
              else Ok ([(lo, lo)], n))))"

text \<open>
  The loop of \<open>parseClass\<close>, from after the opening bracket (and the \<open>^\<close>): the ranges of
  the class and the number of bytes read, the closing bracket among them. A closing
  bracket that comes \<open>first\<close> is a member of the class. Every round reads at least one
  byte.
\<close>

fun class_items :: "bool \<Rightarrow> string \<Rightarrow> ((char \<times> char) list \<times> nat) outcome" where
  "class_items first [] = Err ''missing closing ]''"
| "class_items first (c # cs) =
     (if c = CHR '']'' \<and> \<not> first then Ok ([], 1)
      else (case class_item (c # cs) of
              Err m \<Rightarrow> Err m
            | Unmodelled \<Rightarrow> Unmodelled
            | Ok (rs, n) \<Rightarrow>
                (case class_items False (drop (n - 1) cs) of
                   Ok (rs', k) \<Rightarrow> Ok (rs @ rs', n + k)
                 | Err e \<Rightarrow> Err e
                 | Unmodelled \<Rightarrow> Unmodelled)))"

definition parseClass :: "string \<Rightarrow> (regexp \<times> nat) outcome" where
  "parseClass t =
     (let neg = (take 1 t = ''^'') in
      case class_items True (if neg then tl t else t) of
        Ok (rs, n) \<Rightarrow> Ok (CharClass neg rs, if neg then n + 1 else n)
      | Err m \<Rightarrow> Err m
      | Unmodelled \<Rightarrow> Unmodelled)"

text \<open>
  One round of the main loop of \<open>parse\<close>: the token that starts with the byte \<open>c\<close>, with
  \<open>t\<close> the pattern after that byte. The result is the number of bytes of \<open>t\<close> the token
  took, the new stack and whether the token was a repetition operator.
\<close>

definition parse_token ::
  "char \<Rightarrow> string \<Rightarrow> item list \<Rightarrow> bool \<Rightarrow> (nat \<times> item list \<times> bool) outcome" where
  "parse_token c t st lastRepeat =
     (if c = CHR ''('' then
        (if take 1 t = ''?'' then Unmodelled else Ok (0, LeftParen # st, False))
      else if c = CHR ''|'' then Ok (0, parseVerticalBar st, False)
      else if c = CHR '')'' then
        (case parseRightParen st of
           Ok st' \<Rightarrow> Ok (0, st', False)
         | Err m \<Rightarrow> Err m
         | Unmodelled \<Rightarrow> Unmodelled)
      else if c = CHR ''^'' then Ok (0, Rx BeginText # st, False)
      else if c = CHR ''$'' then Ok (0, Rx EndText # st, False)
      else if c = CHR ''.'' then Ok (0, Rx AnyCharNotNL # st, False)
      else if c = CHR ''['' then
        (case parseClass t of
           Ok (re, n) \<Rightarrow> Ok (n, Rx re # st, False)
         | Err m \<Rightarrow> Err m
         | Unmodelled \<Rightarrow> Unmodelled)
      else if c = CHR ''*'' \<or> c = CHR ''+'' \<or> c = CHR ''?'' then
        (case p_repeat (if c = CHR ''*'' then Star else if c = CHR ''+'' then Plus else Quest)
                t st lastRepeat of
           Ok st' \<Rightarrow> Ok (0, st', True)
         | Err m \<Rightarrow> Err m
         | Unmodelled \<Rightarrow> Unmodelled)
      else if c = CHR ''{'' then
        (if parseRepeat_ok t then Unmodelled else Ok (0, Rx (Literal c) # st, False))
      else if c = backslash then
        (case t of
           [] \<Rightarrow> Err ''trailing backslash at end of expression''
         | e # t' \<Rightarrow>
             (case perl_class e of
                Some (neg, rs) \<Rightarrow> Ok (1, Rx (CharClass neg rs) # st, False)
              | None \<Rightarrow>
                  (case escape_char e of
                     Ok x \<Rightarrow> Ok (1, Rx (Literal x) # st, False)
                   | Err m \<Rightarrow> Err m
                   | Unmodelled \<Rightarrow> Unmodelled)))
      else Ok (0, Rx (Literal c) # st, False))"

text \<open>
  The main loop of \<open>parse\<close>, and its end: what is left on the stack must be one
  expression, with no parenthesis open.
\<close>

fun parse_loop :: "string \<Rightarrow> item list \<Rightarrow> bool \<Rightarrow> regexp outcome" where
  "parse_loop [] st lastRepeat =
     (case close_group st of [Rx r] \<Rightarrow> Ok r | _ \<Rightarrow> Err ''missing closing )'')"
| "parse_loop (c # t) st lastRepeat =
     (case parse_token c t st lastRepeat of
        Ok (n, st', rep) \<Rightarrow> parse_loop (drop n t) st' rep
      | Err m \<Rightarrow> Err m
      | Unmodelled \<Rightarrow> Unmodelled)"

text \<open>
  \<open>regexp.Compile\<close>. The package first checks that the pattern is UTF-8; a pattern with
  a byte beyond ASCII is outside the fragment.
\<close>

definition regexp_Compile :: "string \<Rightarrow> regexp outcome" where
  "regexp_Compile src =
     (if list_ex (\<lambda>c. 128 \<le> byte c) src then Unmodelled else parse_loop src [] False)"

section \<open>Requests, responses and the world around a handler\<close>

text \<open>
  A request, as far as the handlers read it: the parsed query (\<open>r.URL.Query()\<close>, the
  pairs in their order) and the value of the Authorization header (\<open>r.Header.Get\<close>, empty
  when the header is absent).
\<close>

record request =
  query :: "(string \<times> string) list"
  authorization :: string

text \<open>\<open>url.Values.Get\<close>: the first value of the key, the empty string when there is none.\<close>

definition Get :: "(string \<times> string) list \<Rightarrow> string \<Rightarrow> string" where
  "Get vs k = (case map_of vs k of None \<Rightarrow> [] | Some v \<Rightarrow> v)"

text \<open>
  The state a handler works on: the response writer (header map, status, body; the status
  is 0 until the header is written), the lines given to \<open>log.Printf\<close>, the command lines
  handed to \<open>exec.Command\<close>, and the three per-script metric vectors of \<open>setupMetrics\<close>,
  keyed by the script label: the gauge of requests in flight, the counter of requests and
  the durations observed. The gauge holds a float that only ever moves by one; it is an
  integer here.
\<close>

record state =
  w_header :: "string \<rightharpoonup> string"
  w_status :: nat
  w_body :: string
  logged :: "string list"
  started :: "string list list"
  inflight :: "string \<Rightarrow> int"
  requests_total :: "string \<Rightarrow> nat"
  observed :: "string \<Rightarrow> nat list"

text \<open>
  What a request meets outside the program: the outcome of running a command line
  (\<open>exec.Cmd.Output\<close>: the captured standard output and the error, if any), and the
  clock. \<open>time.Since(scriptStartTime).Seconds()\<close> is a float that \<open>%f\<close> prints with six
  decimals; \<open>script_seconds\<close> is that printed value, counted in millionths of a second.
  \<open>handler_nanos\<close> is \<open>time.Since(now)\<close> of \<open>instrumentScript\<close>, \<open>unix_now\<close> the time in
  seconds that the token library compares time claims with.
\<close>

record env =
  exec_Output :: "string list \<Rightarrow> string \<times> string option"
  script_seconds :: nat
  handler_nanos :: nat
  unix_now :: int

text \<open>
  How a handler call ends: it returns, it panics (net/http recovers the panic and drops
  the connection), or it leaves the fragment of the libraries modelled here
  (\<open>Beyond\<close>: no statement).
\<close>

datatype exit = Returned | Panicked | Beyond

type_synonym handler = "request \<Rightarrow> state \<Rightarrow> exit \<times> state"

text \<open>
  The configuration, \<open>exporterConfig\<close>. Its type is declared in pkg/config, which is not
  among the sources; the fields are those the two source files read.
\<close>

record config =
  scripts :: "(string \<times> string) list"
  basic_active :: bool
  basic_username :: string
  basic_password :: string
  bearer_active :: bool
  bearer_signingKey :: string

text \<open>
  Modelled from the spec: \<open>GetScript\<close> of pkg/config is not among the sources. The spec
  has the registry map a script name to a command line, by an exact, case-sensitive
  match on names that are unique, with an empty result for a name it does not hold.
\<close>

definition GetScript :: "config \<Rightarrow> string \<Rightarrow> string" where
  "GetScript cfg name = (case map_of (scripts cfg) name of None \<Rightarrow> [] | Some cmd \<Rightarrow> cmd)"

subsection \<open>The response writer and the log\<close>

definition Header_Set :: "string \<Rightarrow> string \<Rightarrow> state \<Rightarrow> state" where
  "Header_Set k v s = s\<lparr>w_header := (w_header s)(k \<mapsto> v)\<rparr>"

text \<open>\<open>WriteHeader\<close>: the first call fixes the status. \<open>Write\<close>: status 200 unless written.\<close>

definition WriteHeader :: "nat \<Rightarrow> state \<Rightarrow> state" where
  "WriteHeader code s = (if w_status s = 0 then s\<lparr>w_status := code\<rparr> else s)"

definition Write :: "string \<Rightarrow> state \<Rightarrow> state" where
  "Write text s = (WriteHeader 200 s)\<lparr>w_body := w_body s @ text\<rparr>"

text \<open>
  \<open>http.Error\<close>: two header fields, the status, and the message with a newline
  (\<open>fmt.Fprintln\<close>).
\<close>

definition http_Error :: "string \<Rightarrow> nat \<Rightarrow> state \<Rightarrow> state" where
  "http_Error msg code s =
     Write (msg @ [newline])
       (WriteHeader code
         (Header_Set ''X-Content-Type-Options'' ''nosniff''
           (Header_Set ''Content-Type'' ''text/plain; charset=utf-8'' s)))"

definition log_Printf :: "string \<Rightarrow> state \<Rightarrow> state" where
  "log_Printf line s = s\<lparr>logged := logged s @ [line]\<rparr>"

subsection \<open>Printing numbers\<close>

definition digit_char :: "nat \<Rightarrow> char" where
  "digit_char n = char_of (48 + n mod 10)"

fun decimal :: "nat \<Rightarrow> string" where
  "decimal n = (if n < 10 then [digit_char n] else decimal (n div 10) @ [digit_char n])"

text \<open>\<open>%f\<close> of a duration in seconds, given in millionths: the whole part, six decimals.\<close>

definition Sprintf_f :: "nat \<Rightarrow> string" where
  "Sprintf_f us =
     decimal (us div 1000000) @ ''.''
     @ map (\<lambda>k. digit_char (us div 10 ^ k)) [5, 4, 3, 2, 1, 0]"

section \<open>The probe handler\<close>

definition namespace :: string where
  "namespace = ''script''"

definition scriptSuccessHelp :: string where
  "scriptSuccessHelp = ''# HELP script_success Script exit status (0 = error, 1 = success).''"

definition scriptSuccessType :: string where
  "scriptSuccessType = ''# TYPE script_success gauge''"

definition scriptDurationSecondsHelp :: string where
  "scriptDurationSecondsHelp =
     ''# HELP script_duration_seconds Script execution time, in seconds.''"

definition scriptDurationSecondsType :: string where
  "scriptDurationSecondsType = ''# TYPE script_duration_seconds gauge''"

text \<open>
  The text all three \<open>fmt.Fprintf\<close> calls of \<open>metricsHandler\<close> start with: the format
  \<open>"%s\\n%s\\n%s_success{} %d\\n%s\\n%s\\n%s_duration_seconds{} %f\\n"\<close>.
\<close>

definition synthetic :: "nat \<Rightarrow> nat \<Rightarrow> string" where
  "synthetic success us =
     scriptSuccessHelp @ [newline] @ scriptSuccessType @ [newline]
     @ namespace @ ''_success{} '' @ decimal success @ [newline]
     @ scriptDurationSecondsHelp @ [newline] @ scriptDurationSecondsType @ [newline]
     @ namespace @ ''_duration_seconds{} '' @ Sprintf_f us @ [newline]"

text \<open>\<open>runScript\<close>: on an error the captured output is dropped.\<close>

definition runScript :: "env \<Rightarrow> string list \<Rightarrow> string \<times> string option" where
  "runScript e args =
     (case exec_Output e args of
        (output, Some err) \<Rightarrow> ([], Some err)
      | (output, None) \<Rightarrow> (output, None))"

text \<open>
  The body of the scanner loop of \<open>metricsHandler\<close>, for one line: what it appends to
  \<open>formatedOutput\<close>, or \<open>None\<close> where it panics. \<open>regex1\<close> and \<open>regex2\<close> are the two
  compiled expressions, \<open>None\<close> for the nil pointer that \<open>regexp.Compile\<close> returns with
  an error; a method call on it dereferences nil.
\<close>

definition format_line ::
  "regexp option \<Rightarrow> regexp option \<Rightarrow> string \<Rightarrow> string \<Rightarrow> string option" where
  "format_line regex1 regex2 prefix line =
     (let metric = Trim line in
      if metric = [] then Some []
      else if take 1 metric = ''#'' then Some (metric @ [newline])
      else
        (let metric = prefix @ metric in
         case regex1 of
           None \<Rightarrow> None
         | Some re1 \<Rightarrow>
             (case FindAllString re1 metric of
                [m] \<Rightarrow>
                  (let v = Replace_comma (drop (length m) metric) in
                   case regex2 of
                     None \<Rightarrow> None
                   | Some re2 \<Rightarrow> if MatchString re2 (m @ v) then Some (m @ v @ [newline])
                                 else Some [])
              | _ \<Rightarrow> Some [])))"

fun format_lines ::
  "regexp option \<Rightarrow> regexp option \<Rightarrow> string \<Rightarrow> string list \<Rightarrow> string \<Rightarrow> string option"
where
  "format_lines regex1 regex2 prefix [] formatedOutput = Some formatedOutput"
| "format_lines regex1 regex2 prefix (l # ls) formatedOutput =
     (case format_line regex1 regex2 prefix l of
        None \<Rightarrow> None
      | Some out \<Rightarrow> format_lines regex1 regex2 prefix ls (formatedOutput @ out))"

text \<open>The two patterns, built from the prefix.\<close>

definition pattern1 :: "string \<Rightarrow> string" where
  "pattern1 prefix = ''^'' @ prefix @ [backslash] @ ''w*{.*}'' @ [backslash] @ ''s+''"

definition pattern2 :: "string \<Rightarrow> string" where
  "pattern2 prefix =
     ''^'' @ prefix @ [backslash] @ ''w*{.*}'' @ [backslash] @ ''s+[0-9|'' @ [backslash]
     @ ''.]*''"

text \<open>
  The part of \<open>metricsHandler\<close> under the comment "Format output": compile, scan, print.
  The compile errors are discarded, so a failed compilation leaves a nil pointer.
\<close>

definition format_output :: "env \<Rightarrow> string \<Rightarrow> string \<Rightarrow> state \<Rightarrow> exit \<times> state" where
  "format_output e prefix output s =
     (case (regexp_Compile (pattern1 prefix), regexp_Compile (pattern2 prefix)) of
        (Unmodelled, _) \<Rightarrow> (Beyond, s)
      | (_, Unmodelled) \<Rightarrow> (Beyond, s)
      | (c1, c2) \<Rightarrow>
          (case format_lines (case c1 of Ok re \<Rightarrow> Some re | _ \<Rightarrow> None)
                  (case c2 of Ok re \<Rightarrow> Some re | _ \<Rightarrow> None) prefix (scan_lines output) [] of
             None \<Rightarrow> (Panicked, s)
           | Some formatedOutput \<Rightarrow>
               (Returned,
                Write (synthetic 1 (script_seconds e) @ formatedOutput @ [newline]) s)))"

definition metricsHandler :: "config \<Rightarrow> env \<Rightarrow> handler" where
  "metricsHandler cfg e r s =
     (let params = query r;
          scriptName = Get params ''script''
      in if scriptName = [] then
           (Returned,
            http_Error ''Script parameter is missing'' 400
              (log_Printf (''Script parameter is missing'' @ [newline]) s))
         else
           (let prefix = Get params ''prefix'';
                prefix = (if prefix \<noteq> [] then prefix @ ''_'' else prefix);
                scriptParams = Get params ''params'';
                paramValues = (if scriptParams \<noteq> []
                               then map (Get params) (Split scriptParams (CHR '',''))
                               else []);
                s1 = Header_Set ''Content-Type'' ''text/plain'' s;
                script = GetScript cfg scriptName
            in if script = [] then
                 (Returned,
                  http_Error ''Script not found'' 400
                    (log_Printf (''Script not found'' @ [newline]) s1))
               else
                 (let args = Split script (CHR '' '') @ paramValues;
                      s2 = s1\<lparr>started := started s1 @ [args]\<rparr>
                  in case runScript e args of
                       (output, Some err) \<Rightarrow>
                         (Returned,
                          Write (synthetic 0 (script_seconds e))
                            (log_Printf (''Script failed: '' @ err @ [newline]) s2))
                     | (output, None) \<Rightarrow>
                         if Get params ''output'' = ''ignore'' then
                           (Returned, Write (synthetic 1 (script_seconds e)) s2)
                         else format_output e prefix output s2)))"

text \<open>The command line \<open>metricsHandler\<close> hands to \<open>runScript\<close> for a request.\<close>

definition probe_args :: "config \<Rightarrow> request \<Rightarrow> string list" where
  "probe_args cfg r =
     Split (GetScript cfg (Get (query r) ''script'')) (CHR '' '')
     @ (if Get (query r) ''params'' \<noteq> []
        then map (Get (query r)) (Split (Get (query r) ''params'') (CHR '',''))
        else [])"

section \<open>Base64\<close>

text \<open>
  The two alphabets of encoding/base64 differ in the last two characters: \<open>+\<close> and \<open>/\<close>
  in the standard one, \<open>-\<close> and \<open>_\<close> in the URL one. An alphabet is given by these two.
\<close>

type_synonym alphabet = "char \<times> char"

definition std_alphabet :: alphabet where
  "std_alphabet = (CHR ''+'', CHR ''/'')"

definition url_alphabet :: alphabet where
  "url_alphabet = (CHR ''-'', CHR ''_'')"


definition b64_value :: "alphabet \<Rightarrow> char \<Rightarrow> nat option" where
  "b64_value al c =
     (if between (CHR ''A'') (CHR ''Z'') c then Some (byte c - 65)
      else if between (CHR ''a'') (CHR ''z'') c then Some (byte c - 71)
      else if between (CHR ''0'') (CHR ''9'') c then Some (byte c + 4)
      else if c = fst al then Some 62
      else if c = snd al then Some 63
      else None)"


text \<open>
  \<open>DecodeString\<close> of an encoding with padding: carriage returns and newlines are skipped;
  what is left must be groups of four characters of the alphabet, the last of which may
  end in one or two padding characters, with nothing after them. Bits of the last group
  that belong to no byte are not looked at.
\<close>

fun b64_groups :: "alphabet \<Rightarrow> string \<Rightarrow> string option" where
  "b64_groups al [] = Some []"
| "b64_groups al (a # b # c # d # rest) =
     (case (b64_value al a, b64_value al b) of
        (Some x, Some y) \<Rightarrow>
          if c = CHR ''='' then
            (if d = CHR ''='' \<and> rest = [] then Some [char_of (x * 4 + y div 16)] else None)
          else
            (case b64_value al c of
               None \<Rightarrow> None
             | Some z \<Rightarrow>
                 if d = CHR ''='' then
                   (if rest = []
                    then Some [char_of (x * 4 + y div 16), char_of (y mod 16 * 16 + z div 4)]
                    else None)
                 else
                   (case b64_value al d of
                      None \<Rightarrow> None
                    | Some w \<Rightarrow>
                        (case b64_groups al rest of
                           None \<Rightarrow> None
                         | Some bs \<Rightarrow>
                             Some (char_of (x * 4 + y div 16)
                                   # char_of (y mod 16 * 16 + z div 4)
                                   # char_of (z mod 4 * 64 + w) # bs))))
      | _ \<Rightarrow> None)"
| "b64_groups al _ = None"

definition b64_decode :: "alphabet \<Rightarrow> string \<Rightarrow> string option" where
  "b64_decode al s = b64_groups al (filter (\<lambda>c. c \<noteq> CHR 0x0D \<and> c \<noteq> newline) s)"

section \<open>SHA-256 and HMAC\<close>

type_synonym w32 = "32 word"

definition Ch :: "w32 \<Rightarrow> w32 \<Rightarrow> w32 \<Rightarrow> w32" where
  "Ch x y z = (x AND y) XOR (NOT x AND z)"

definition Maj :: "w32 \<Rightarrow> w32 \<Rightarrow> w32 \<Rightarrow> w32" where
  "Maj x y z = (x AND y) XOR (x AND z) XOR (y AND z)"

definition Sigma0 :: "w32 \<Rightarrow> w32" where
  "Sigma0 x = word_rotr 2 x XOR word_rotr 13 x XOR word_rotr 22 x"

definition Sigma1 :: "w32 \<Rightarrow> w32" where
  "Sigma1 x = word_rotr 6 x XOR word_rotr 11 x XOR word_rotr 25 x"

definition sigma0 :: "w32 \<Rightarrow> w32" where
  "sigma0 x = word_rotr 7 x XOR word_rotr 18 x XOR drop_bit 3 x"

definition sigma1 :: "w32 \<Rightarrow> w32" where
  "sigma1 x = word_rotr 17 x XOR word_rotr 19 x XOR drop_bit 10 x"

definition K256 :: "w32 list" where
  "K256 =
    [0x428a2f98, 0x71374491, 0xb5c0fbcf, 0xe9b5dba5, 0x3956c25b, 0x59f111f1, 0x923f82a4,
     0xab1c5ed5, 0xd807aa98, 0x12835b01, 0x243185be, 0x550c7dc3, 0x72be5d74, 0x80deb1fe,
     0x9bdc06a7, 0xc19bf174, 0xe49b69c1, 0xefbe4786, 0x0fc19dc6, 0x240ca1cc, 0x2de92c6f,
     0x4a7484aa, 0x5cb0a9dc, 0x76f988da, 0x983e5152, 0xa831c66d, 0xb00327c8, 0xbf597fc7,
     0xc6e00bf3, 0xd5a79147, 0x06ca6351, 0x14292967, 0x27b70a85, 0x2e1b2138, 0x4d2c6dfc,
     0x53380d13, 0x650a7354, 0x766a0abb, 0x81c2c92e, 0x92722c85, 0xa2bfe8a1, 0xa81a664b,
     0xc24b8b70, 0xc76c51a3, 0xd192e819, 0xd6990624, 0xf40e3585, 0x106aa070, 0x19a4c116,
     0x1e376c08, 0x2748774c, 0x34b0bcb5, 0x391c0cb3, 0x4ed8aa4a, 0x5b9cca4f, 0x682e6ff3,
     0x748f82ee, 0x78a5636f, 0x84c87814, 0x8cc70208, 0x90befffa, 0xa4506ceb, 0xbef9a3f7,
     0xc67178f2]"

definition H256 :: "w32 list" where
  "H256 = [0x6a09e667, 0xbb67ae85, 0x3c6ef372, 0xa54ff53a, 0x510e527f, 0x9b05688c,
           0x1f83d9ab, 0x5be0cd19]"

text \<open>Four bytes, big end first, as a word; and back.\<close>

definition be_word :: "string \<Rightarrow> w32" where
  "be_word bs = foldl (\<lambda>w c. push_bit 8 w OR of_nat (byte c)) 0 (take 4 bs)"

definition word_bytes :: "w32 \<Rightarrow> string" where
  "word_bytes w = map (\<lambda>k. char_of (unat (drop_bit k w AND 0xFF))) [24, 16, 8, 0]"

fun be_words :: "string \<Rightarrow> w32 list" where
  "be_words (a # b # c # d # bs) = be_word [a, b, c, d] # be_words bs"
| "be_words _ = []"

fun blocks :: "string \<Rightarrow> string list" where
  "blocks [] = []"
| "blocks (c # cs) = take 64 (c # cs) # blocks (drop 63 cs)"

text \<open>The padding: a one bit, zeros, and the length of the message in bits on 8 bytes.\<close>

definition sha_pad :: "string \<Rightarrow> string" where
  "sha_pad m =
     m @ [CHR 0x80] @ replicate ((64 - (length m + 9) mod 64) mod 64) (CHR 0x00)
     @ map (\<lambda>k. char_of (8 * length m div 256 ^ k)) [7, 6, 5, 4, 3, 2, 1, 0]"

text \<open>The message schedule: sixteen words of the block, extended to sixty-four.\<close>

fun extend :: "nat \<Rightarrow> w32 list \<Rightarrow> w32 list" where
  "extend 0 w = w"
| "extend (Suc n) w =
     extend n (w @ [sigma1 (w ! (length w - 2)) + w ! (length w - 7)
                    + sigma0 (w ! (length w - 15)) + w ! (length w - 16)])"

definition schedule :: "string \<Rightarrow> w32 list" where
  "schedule block = extend 48 (be_words block)"

fun sha_round :: "w32 list \<Rightarrow> w32 \<times> w32 \<Rightarrow> w32 list" where
  "sha_round [a, b, c, d, e, f, g, h] (k, w) =
     (let t1 = h + Sigma1 e + Ch e f g + k + w;
          t2 = Sigma0 a + Maj a b c
      in [t1 + t2, a, b, c, d + t1, e, f, g])"
| "sha_round v kw = v"

definition compress :: "w32 list \<Rightarrow> string \<Rightarrow> w32 list" where
  "compress h block = map2 (+) h (foldl sha_round h (zip K256 (schedule block)))"

definition sha256 :: "string \<Rightarrow> string" where
  "sha256 m = concat (map word_bytes (foldl compress H256 (blocks (sha_pad m))))"

text \<open>
  crypto/hmac with SHA-256 (block size 64): a key longer than a block is hashed first, a
  shorter one is filled up with zero bytes.
\<close>

definition xor_byte :: "nat \<Rightarrow> char \<Rightarrow> char" where
  "xor_byte p c = char_of (byte c XOR p)"

definition hmac_key :: "string \<Rightarrow> string" where
  "hmac_key key =
     (let k = (if 64 < length key then sha256 key else key)
      in k @ replicate (64 - length k) (CHR 0x00))"

definition hmac_sha256 :: "string \<Rightarrow> string \<Rightarrow> string" where
  "hmac_sha256 key m =
     sha256 (map (xor_byte 0x5c) (hmac_key key)
             @ sha256 (map (xor_byte 0x36) (hmac_key key) @ m))"

section \<open>JSON, as far as the token library reads it\<close>

text \<open>
  The token library decodes the header and the claims of a token with encoding/json.
  The reader below covers a fragment of JSON: an object, with white space around its
  tokens, whose keys and string values are made of printable ASCII without escapes and
  whose other values are integers of at most fifteen digits, \<open>true\<close>, \<open>false\<close> or
  \<open>null\<close>. For any other text it gives \<open>None\<close>: no statement (the text may or may
  not be JSON).
\<close>

datatype jvalue = JString string | JNumber int | JBool bool | JNull

definition json_ws :: "char \<Rightarrow> bool" where
  "json_ws c = (c = CHR '' '' \<or> c = CHR 0x09 \<or> c = CHR 0x0A \<or> c = CHR 0x0D)"

definition plain_json_char :: "char \<Rightarrow> bool" where
  "plain_json_char c = (0x20 \<le> byte c \<and> byte c < 0x7F \<and> c \<noteq> dquote \<and> c \<noteq> backslash)"

text \<open>A token at the head of the text: what it stands for and the bytes it takes.\<close>

definition read_string :: "string \<Rightarrow> (string \<times> nat) option" where
  "read_string s =
     (case s of
        [] \<Rightarrow> None
      | c # cs \<Rightarrow>
          if c \<noteq> dquote then None
          else (let body = takeWhile plain_json_char cs in
                if take 1 (drop (length body) cs) = [dquote]
                then Some (body, length body + 2) else None))"

definition digits_value :: "string \<Rightarrow> int" where
  "digits_value ds = foldl (\<lambda>n c. 10 * n + (int (byte c) - 48)) 0 ds"

definition read_number :: "string \<Rightarrow> (int \<times> nat) option" where
  "read_number s =
     (let neg = (take 1 s = ''-'');
          t = (if neg then drop 1 s else s);
          ds = takeWhile is_digit t;
          after = take 1 (drop (length ds) t)
      in if ds = [] \<or> 15 < length ds \<or> (1 < length ds \<and> take 1 ds = ''0'')
            \<or> after = ''.'' \<or> after = ''e'' \<or> after = ''E''
         then None
         else Some (if neg then - digits_value ds else digits_value ds,
                    length ds + (if neg then 1 else 0)))"

definition read_value :: "string \<Rightarrow> (jvalue \<times> nat) option" where
  "read_value s =
     (if take 1 s = [dquote] then
        (case read_string s of None \<Rightarrow> None | Some (v, n) \<Rightarrow> Some (JString v, n))
      else if take 4 s = ''true'' then Some (JBool True, 4)
      else if take 5 s = ''false'' then Some (JBool False, 5)
      else if take 4 s = ''null'' then Some (JNull, 4)
      else (case read_number s of None \<Rightarrow> None | Some (v, n) \<Rightarrow> Some (JNumber v, n)))"

text \<open>A member \<open>"key": value\<close> at the head of the text.\<close>

definition read_member :: "string \<Rightarrow> ((string \<times> jvalue) \<times> nat) option" where
  "read_member s =
     (case read_string s of
        None \<Rightarrow> None
      | Some (k, n) \<Rightarrow>
          (let t = drop n s; w1 = length (takeWhile json_ws t); t1 = drop w1 t in
           if take 1 t1 \<noteq> '':'' then None
           else (let t2 = drop 1 t1; w2 = length (takeWhile json_ws t2) in
                 case read_value (drop w2 t2) of
                   None \<Rightarrow> None
                 | Some (v, m) \<Rightarrow> Some ((k, v), n + w1 + 1 + w2 + m))))"

text \<open>
  The members of an object, from its first member on, up to the closing brace: the
  members and the text after the brace.
\<close>

function json_members :: "string \<Rightarrow> ((string \<times> jvalue) list \<times> string) option" where
  "json_members s =
     (case read_member s of
        None \<Rightarrow> None
      | Some (m, n) \<Rightarrow>
          (case dropWhile json_ws (drop n s) of
             [] \<Rightarrow> None
           | d # rest \<Rightarrow>
               if d = CHR ''}'' then Some ([m], rest)
               else if d = CHR '','' then
                 (case json_members (dropWhile json_ws rest) of
                    None \<Rightarrow> None
                  | Some (ms, r) \<Rightarrow> Some (m # ms, r))
               else None))"
  by pat_completeness auto
termination
proof (relation "measure length")
  fix s :: string and m n d rest
  assume a: "dropWhile json_ws (drop n s) = d # rest"
  have "length (dropWhile json_ws rest) \<le> length rest" by (rule length_dropWhile_le)
  moreover have "length (d # rest) \<le> length (drop n s)"
    using a length_dropWhile_le [of json_ws "drop n s"] by simp
  ultimately show "(dropWhile json_ws rest, s) \<in> measure length" by simp
qed simp

definition json_object :: "string \<Rightarrow> (string \<times> jvalue) list option" where
  "json_object s =
     (case dropWhile json_ws s of
        [] \<Rightarrow> None
      | c # r \<Rightarrow>
          if c \<noteq> CHR ''{'' then None
          else (case dropWhile json_ws r of
                  [] \<Rightarrow> None
                | d # r1 \<Rightarrow>
                    if d = CHR ''}'' then (if list_all json_ws r1 then Some [] else None)
                    else (case json_members (d # r1) of
                            None \<Rightarrow> None
                          | Some (ms, r2) \<Rightarrow> if list_all json_ws r2 then Some ms else None)))"

text \<open>A key that occurs twice has its last value, as in the Go map.\<close>

definition json_get :: "(string \<times> jvalue) list \<Rightarrow> string \<Rightarrow> jvalue option" where
  "json_get ms k = map_of (rev ms) k"

section \<open>The token library\<close>


definition DecodeSegment :: "string \<Rightarrow> string option" where
  "DecodeSegment seg =
     b64_decode url_alphabet
       (if 0 < length seg mod 4 then seg @ replicate (4 - length seg mod 4) (CHR ''='')
        else seg)"

text \<open>
  \<open>MapClaims.Valid\<close>: the claims \<open>exp\<close>, \<open>iat\<close> and \<open>nbf\<close> are compared with the clock
  when they are numbers other than 0; a claim that is absent, or no number, passes.
\<close>

definition time_claims_valid :: "(string \<times> jvalue) list \<Rightarrow> int \<Rightarrow> bool" where
  "time_claims_valid claims now =
     ((case json_get claims ''exp'' of Some (JNumber n) \<Rightarrow> n = 0 \<or> now \<le> n | _ \<Rightarrow> True)
      \<and> (case json_get claims ''iat'' of Some (JNumber n) \<Rightarrow> n = 0 \<or> n \<le> now | _ \<Rightarrow> True)
      \<and> (case json_get claims ''nbf'' of Some (JNumber n) \<Rightarrow> n = 0 \<or> n \<le> now | _ \<Rightarrow> True))"

text \<open>
  \<open>jwt.Parse\<close> with the key function of \<open>checkJWT\<close>, which accepts the HMAC methods only
  and hands out the signing key. The result is the error: \<open>Ok ()\<close> for nil. The steps
  are those of the library: three segments; header and claims decoded from base64 and
  JSON; the method looked up by the \<open>alg\<close> of the header; the key function; the time
  claims; the signature. Of the HMAC methods, HS256 is modelled; tokens that name HS384
  or HS512 are outside the model, and so are tokens whose header or claims are outside
  the JSON fragment.
\<close>

definition jwt_Parse :: "string \<Rightarrow> int \<Rightarrow> string \<Rightarrow> unit outcome" where
  "jwt_Parse key now tokenString =
     (case Split tokenString (CHR ''.'') of
        [p0, p1, p2] \<Rightarrow>
          (case DecodeSegment p0 of
             None \<Rightarrow> Err ''token is malformed''
           | Some headerBytes \<Rightarrow>
               (case json_object headerBytes of
                  None \<Rightarrow> Unmodelled
                | Some header \<Rightarrow>
                    (case DecodeSegment p1 of
                       None \<Rightarrow> Err ''token is malformed''
                     | Some claimBytes \<Rightarrow>
                         (case json_object claimBytes of
                            None \<Rightarrow> Unmodelled
                          | Some claims \<Rightarrow>
                              (case json_get header ''alg'' of
                                 Some (JString alg) \<Rightarrow>
                                   if alg = ''HS256'' then
                                     (if \<not> time_claims_valid claims now
                                      then Err ''token is expired or not valid yet''
                                      else (case DecodeSegment p2 of
                                              None \<Rightarrow> Err ''signature is invalid''
                                            | Some sig \<Rightarrow>
                                                if sig = hmac_sha256 key (p0 @ ''.'' @ p1)
                                                then Ok ()
                                                else Err ''signature is invalid''))
                                   else if alg = ''HS384'' \<or> alg = ''HS512'' then Unmodelled
                                   else Err ''signing method is unavailable or unexpected''
                               | _ \<Rightarrow> Err ''signing method (alg) is unspecified'')))))
      | _ \<Rightarrow> Err ''token contains an invalid number of segments'')"

section \<open>The authentication gate\<close>

definition checkJWT :: "config \<Rightarrow> env \<Rightarrow> string \<Rightarrow> unit outcome" where
  "checkJWT cfg e jwtToken = jwt_Parse (bearer_signingKey cfg) (unix_now e) jwtToken"




text \<open>
  \<open>(*Request).BasicAuth\<close>: the Authorization header must start with \<open>Basic\<close> and a space
  (in any case of the letters), the rest must be standard base64, and the decoded text
  is cut at its first colon.
\<close>

definition Cut :: "string \<Rightarrow> char \<Rightarrow> (string \<times> string) option" where
  "Cut s sep =
     (if sep \<in> set s
      then Some (takeWhile (\<lambda>c. c \<noteq> sep) s, drop 1 (dropWhile (\<lambda>c. c \<noteq> sep) s))
      else None)"

definition BasicAuth :: "request \<Rightarrow> (string \<times> string) option" where
  "BasicAuth r =
     (let a = authorization r in
      if a = [] then None
      else if length a < 6 \<or> ToLower (take 6 a) \<noteq> ''basic '' then None
      else (case b64_decode std_alphabet (drop 6 a) of
              None \<Rightarrow> None
            | Some cs \<Rightarrow> Cut cs (CHR '':'')))"

text \<open>The four deny branches of \<open>auth\<close> are one statement and a return.\<close>

definition unauthorized :: "state \<Rightarrow> exit \<times> state" where
  "unauthorized s = (Returned, http_Error ''Not authorized'' 401 s)"

text \<open>
  With Basic authentication active the gate first sets the challenge header, whatever
  comes next.
\<close>

definition challenge :: "config \<Rightarrow> state \<Rightarrow> state" where
  "challenge cfg s =
     (if basic_active cfg
      then Header_Set ''WWW-Authenticate'' ''Basic realm=\"Restricted\"'' s else s)"

text \<open>
  \<open>auth\<close>, the middleware around the probe handler \<open>h\<close>. A token outside the model of
  the token library leaves the model (\<open>Beyond\<close>).
\<close>

definition auth :: "config \<Rightarrow> env \<Rightarrow> handler \<Rightarrow> handler" where
  "auth cfg e h r s =
     (let s1 = challenge cfg s
      in if basic_active cfg \<and> BasicAuth r = None then unauthorized s1
         else if basic_active cfg
                 \<and> (fst (the (BasicAuth r)) \<noteq> basic_username cfg
                    \<or> snd (the (BasicAuth r)) \<noteq> basic_password cfg)
         then unauthorized s1
         else if bearer_active cfg then
           (let authHeader = authorization r in
            if authHeader = [] then unauthorized s1
            else (let authHeaderParts = Split authHeader (CHR '' '') in
                  if length authHeaderParts \<noteq> 2
                     \<or> ToLower (authHeaderParts ! 0) \<noteq> ''bearer''
                  then unauthorized s1
                  else (case checkJWT cfg e (authHeaderParts ! 1) of
                          Unmodelled \<Rightarrow> (Beyond, s1)
                        | Err err \<Rightarrow> unauthorized s1
                        | Ok u \<Rightarrow> h r s1)))
         else h r s1)"

text \<open>
  The two schemes as the specification words them. Basic: the request presents
  credentials and they equal the configured ones. Bearer: the header is a scheme and a
  token separated by one space, the scheme is \<open>bearer\<close> in any case of its letters, and
  the token validates.
\<close>

definition basic_passes :: "config \<Rightarrow> request \<Rightarrow> bool" where
  "basic_passes cfg r = (BasicAuth r = Some (basic_username cfg, basic_password cfg))"

definition bearer_token :: "request \<Rightarrow> string option" where
  "bearer_token r =
     (case Split (authorization r) (CHR '' '') of
        [scheme, tok] \<Rightarrow> if ToLower scheme = ''bearer'' then Some tok else None
      | _ \<Rightarrow> None)"


text \<open>
  The checks of the gate that can fail, and when a request fails one.
\<close>

datatype deny =
  NoBasicCredentials | WrongUsername | WrongPassword
  | NoAuthorizationHeader | MalformedHeader | WrongScheme | InvalidToken

fun fails :: "config \<Rightarrow> env \<Rightarrow> request \<Rightarrow> deny \<Rightarrow> bool" where
  "fails cfg e r NoBasicCredentials = (basic_active cfg \<and> BasicAuth r = None)"
| "fails cfg e r WrongUsername =
     (basic_active cfg
      \<and> (case BasicAuth r of None \<Rightarrow> False | Some (u, p) \<Rightarrow> u \<noteq> basic_username cfg))"
| "fails cfg e r WrongPassword =
     (basic_active cfg
      \<and> (case BasicAuth r of None \<Rightarrow> False | Some (u, p) \<Rightarrow> p \<noteq> basic_password cfg))"
| "fails cfg e r NoAuthorizationHeader = (bearer_active cfg \<and> authorization r = [])"
| "fails cfg e r MalformedHeader =
     (bearer_active cfg \<and> length (Split (authorization r) (CHR '' '')) \<noteq> 2)"
| "fails cfg e r WrongScheme =
     (bearer_active cfg \<and> length (Split (authorization r) (CHR '' '')) = 2
      \<and> ToLower (Split (authorization r) (CHR '' '') ! 0) \<noteq> ''bearer'')"
| "fails cfg e r InvalidToken =
     (bearer_active cfg
      \<and> (case bearer_token r of
            None \<Rightarrow> False
          | Some tok \<Rightarrow> (case checkJWT cfg e tok of Err m \<Rightarrow> True | _ \<Rightarrow> False)))"



section \<open>The per-script instrumentation\<close>

text \<open>
  \<open>utf8.ValidString\<close>: every rune of the text is a well-formed UTF-8 sequence.
\<close>

fun ValidString :: "string \<Rightarrow> bool" where
  "ValidString [] = True"
| "ValidString (c # cs) =
     (if byte c < 0x80 then ValidString cs
      else 1 < rune_width (c # cs) \<and> ValidString (drop (rune_width (c # cs) - 1) cs))"

text \<open>The operations on the metric vectors, for the child with the label \<open>sn\<close>.\<close>

definition gauge_Inc :: "string \<Rightarrow> state \<Rightarrow> state" where
  "gauge_Inc sn s = s\<lparr>inflight := (inflight s)(sn := inflight s sn + 1)\<rparr>"

definition gauge_Dec :: "string \<Rightarrow> state \<Rightarrow> state" where
  "gauge_Dec sn s = s\<lparr>inflight := (inflight s)(sn := inflight s sn - 1)\<rparr>"

definition counter_Inc :: "string \<Rightarrow> state \<Rightarrow> state" where
  "counter_Inc sn s = s\<lparr>requests_total := (requests_total s)(sn := requests_total s sn + 1)\<rparr>"

definition Observe :: "string \<Rightarrow> nat \<Rightarrow> state \<Rightarrow> state" where
  "Observe sn d s = s\<lparr>observed := (observed s)(sn := observed s sn @ [d])\<rparr>"

text \<open>
  \<open>instrumentScript\<close>. The decrement is deferred: it runs when the function returns and
  when the inner handler panics, and the panic then goes on. The vectors check their
  label values: \<open>With\<close> panics for a label value that is not valid UTF-8. The first
  \<open>With\<close> is the one of \<open>g.With(labels).Inc()\<close>, before the \<open>defer\<close>; for such a script
  name the function panics there, with nothing counted and the inner handler not called.
\<close>

definition instrumentScript :: "env \<Rightarrow> handler \<Rightarrow> handler" where
  "instrumentScript e next r s =
     (let sn = Get (query r) ''script'' in
      if sn = [] then next r s
      else if \<not> ValidString sn then (Panicked, s)
      else
        (case next r (gauge_Inc sn s) of
           (Returned, s') \<Rightarrow>
             (Returned, gauge_Dec sn (counter_Inc sn (Observe sn (handler_nanos e) s')))
         | (Panicked, s') \<Rightarrow> (Panicked, gauge_Dec sn s')
         | (Beyond, s') \<Rightarrow> (Beyond, s')))"

text \<open>
  The two expressions \<open>metricsHandler\<close> compiles when the request has no prefix.
\<close>

definition re1_plain :: regexp where
  "re1_plain =
     Concat BeginText (Concat (Star (CharClass False perl_w)) (Concat (Literal (CHR ''{''))
       (Concat (Star AnyCharNotNL) (Concat (Literal (CHR ''}''))
         (Plus (CharClass False perl_s))))))"

definition re2_plain :: regexp where
  "re2_plain =
     Concat BeginText (Concat (Star (CharClass False perl_w)) (Concat (Literal (CHR ''{''))
       (Concat (Star AnyCharNotNL) (Concat (Literal (CHR ''}''))
         (Concat (Plus (CharClass False perl_s))
           (Star (CharClass False
             [(CHR ''0'', CHR ''9''), (CHR ''|'', CHR ''|''), (CHR ''.'', CHR ''.'')])))))))"

section \<open>Well-formed sample lines\<close>

text \<open>
  The shape of a sample line \<open>name{labels} value\<close>: the bytes of a metric name as the
  patterns of \<open>metricsHandler\<close> read it (\<open>\\w\<close>), the blanks between the label set and
  the value (the bytes of \<open>\\s\<close> other than the newline), and the bytes of a value written
  with digits, a full stop or a decimal comma.
\<close>

definition word_char :: "char \<Rightarrow> bool" where
  "word_char c = in_ranges perl_w c"

definition blank :: "char \<Rightarrow> bool" where
  "blank c = (c = CHR '' '' \<or> c = CHR 0x09 \<or> c = CHR 0x0C \<or> c = CHR 0x0D)"

definition value_char :: "char \<Rightarrow> bool" where
  "value_char c = (is_digit c \<or> c = CHR ''.'' \<or> c = CHR '','')"

text \<open>
  A byte of the prefix that stands for itself in a pattern: ASCII, and none of the
  characters the pattern syntax gives a meaning.
\<close>

definition plain_char :: "char \<Rightarrow> bool" where
  "plain_char c = (byte c < 128 \<and> c \<notin> set ([backslash] @ ''.+*?()|[]{}^$''))"

text \<open>
  What the two patterns compile to for a prefix of such bytes: the start of the text, the
  bytes of the prefix, then \<open>\\w*{.*}\\s+\<close>, and for the second pattern \<open>[0-9|\\.]*\<close>.
\<close>

definition tail1 :: "regexp list" where
  "tail1 = [Star (CharClass False perl_w), Literal (CHR ''{''), Star AnyCharNotNL,
            Literal (CHR ''}''), Plus (CharClass False perl_s)]"

definition value_class :: regexp where
  "value_class =
     Star (CharClass False [(CHR ''0'', CHR ''9''), (CHR ''|'', CHR ''|''), (CHR ''.'', CHR ''.'')])"

definition re1_of :: "string \<Rightarrow> regexp" where
  "re1_of p = concat_of (BeginText # map Literal p @ tail1)"

definition re2_of :: "string \<Rightarrow> regexp" where
  "re2_of p = concat_of (BeginText # map Literal p @ tail1 @ [value_class])"

section \<open>Sample values\<close>

text \<open>
  A state before anything is written, a registry with one script, two environments (a
  script that fails after printing something, a script that prints a given text) and a
  request with a given query.
\<close>

definition fresh :: state where
  "fresh = \<lparr>w_header = Map.empty, w_status = 0, w_body = [], logged = [], started = [],
            inflight = (\<lambda>_. 0), requests_total = (\<lambda>_. 0), observed = (\<lambda>_. [])\<rparr>"

definition ping_config :: config where
  "ping_config = \<lparr>scripts = [(''ping'', ''/bin/ping -c 1'')], basic_active = False,
     basic_username = [], basic_password = [], bearer_active = False, bearer_signingKey = []\<rparr>"

definition failing_env :: env where
  "failing_env = \<lparr>exec_Output = (\<lambda>args. (''partial{} 1'', Some ''exit status 1'')),
     script_seconds = 1234567, handler_nanos = 1234567890, unix_now = 0\<rparr>"

definition printing_env :: "string \<Rightarrow> env" where
  "printing_env out = \<lparr>exec_Output = (\<lambda>args. (out, None)),
     script_seconds = 1234567, handler_nanos = 1234567890, unix_now = 0\<rparr>"

definition probe :: "(string \<times> string) list \<Rightarrow> request" where
  "probe q = \<lparr>query = q, authorization = []\<rparr>"


definition both_config :: config where
  "both_config = \<lparr>scripts = [(''ping'', ''/bin/ping -c 1'')], basic_active = True,
     basic_username = ''user'', basic_password = ''pass'', bearer_active = True,
     bearer_signingKey = ''secret''\<rparr>"

definition with_header :: "string \<Rightarrow> request" where
  "with_header a = \<lparr>query = [(''script'', ''ping'')], authorization = a\<rparr>"

(* PROPERTIES *)

section \<open>Properties of the probe handler\<close>

lemmas writer_defs = http_Error_def Write_def WriteHeader_def Header_Set_def log_Printf_def

lemma decimal_digits: "list_all is_digit (decimal n) \<and> decimal n \<noteq> []"
proof (induction n rule: decimal.induct)
  case (1 n)
  have d: "is_digit (digit_char n)"
  proof -
    have "n mod 10 < 10" by simp
    then have "48 + n mod 10 < 256" "48 \<le> 48 + n mod 10" "48 + n mod 10 \<le> 57" by simp_all
    then show ?thesis
      by (simp add: is_digit_def between_def byte_def digit_char_def)
  qed
  show ?case
  proof (cases "n < 10")
    case True
    then show ?thesis using d by (subst decimal.simps, subst (2) decimal.simps) simp
  next
    case False
    then show ?thesis using d 1 by (subst decimal.simps, subst (2) decimal.simps) simp
  qed
qed

text \<open>
  The duration a probe prints is well formed: digits, a full stop, six digits.
\<close>

lemma Sprintf_f_shape:
  "\<exists>w f. Sprintf_f us = w @ ''.'' @ f \<and> w \<noteq> [] \<and> list_all is_digit w
         \<and> length f = 6 \<and> list_all is_digit f"
proof -
  have d: "is_digit (digit_char k)" for k
  proof -
    have "k mod 10 < 10" by simp
    then have "48 + k mod 10 < 256" "48 \<le> 48 + k mod 10" "48 + k mod 10 \<le> 57" by simp_all
    then show ?thesis
      by (simp add: is_digit_def between_def byte_def digit_char_def)
  qed
  let ?f = "map (\<lambda>k. digit_char (us div 10 ^ k)) [5, 4, 3, 2, 1, 0::nat]"
  have "Sprintf_f us = decimal (us div 1000000) @ ''.'' @ ?f"
    by (simp add: Sprintf_f_def)
  moreover have "length ?f = 6" by simp
  moreover have "list_all is_digit ?f" using d by simp
  ultimately show ?thesis using decimal_digits [of "us div 1000000"] by blast
qed

text \<open>
  C8. A request that names a script for which the registry lookup gives the empty result
  is answered with status 400 and the message "Script not found" (\<open>http.Error\<close> ends the
  message with a newline), and no command is started. The response writer is one nothing
  has been written to (\<open>w_status s = 0\<close>).
\<close>

theorem script_not_found:
  assumes "Get (query r) ''script'' \<noteq> []"
    and "GetScript cfg (Get (query r) ''script'') = []"
    and "w_status s = 0"
  shows "fst (metricsHandler cfg e r s) = Returned
    \<and> w_status (snd (metricsHandler cfg e r s)) = 400
    \<and> w_body (snd (metricsHandler cfg e r s)) = w_body s @ ''Script not found'' @ [newline]
    \<and> started (snd (metricsHandler cfg e r s)) = started s"
  using assms by (simp add: metricsHandler_def Let_def writer_defs)

theorem script_not_found_witness:
  "Get (query (probe [(''script'', ''pong'')])) ''script'' \<noteq> []
   \<and> GetScript ping_config (Get (query (probe [(''script'', ''pong'')])) ''script'') = []
   \<and> w_status fresh = 0
   \<and> fst (metricsHandler ping_config failing_env (probe [(''script'', ''pong'')]) fresh)
       = Returned
   \<and> w_status (snd (metricsHandler ping_config failing_env (probe [(''script'', ''pong'')])
        fresh)) = 400
   \<and> w_body (snd (metricsHandler ping_config failing_env (probe [(''script'', ''pong'')])
        fresh)) = ''Script not found'' @ [newline]
   \<and> started (snd (metricsHandler ping_config failing_env (probe [(''script'', ''pong'')])
        fresh)) = []"
proof -
  have a: "Get (query (probe [(''script'', ''pong'')])) ''script'' \<noteq> []"
    by (simp add: probe_def Get_def)
  have b: "GetScript ping_config (Get (query (probe [(''script'', ''pong'')])) ''script'') = []"
    by (simp add: probe_def Get_def GetScript_def ping_config_def)
  have c: "w_status fresh = 0" by (simp add: fresh_def)
  show ?thesis
    using script_not_found [OF a b c, of failing_env] a b c by (simp add: fresh_def)
qed

text \<open>
  C7. When the script of a request is registered and running its command line fails
  (\<open>Output\<close> returns an error: the process could not be started or did not exit with
  status 0), the handler returns, the status is 200, and the body is exactly six lines:
  the two directives and the sample \<open>script_success{} 0\<close>, the two directives and the
  sample of \<open>script_duration_seconds\<close>, whose value is a well-formed decimal. Whatever
  the process had printed before it failed (\<open>out\<close>) is nowhere in the body.
\<close>

theorem failed_script:
  assumes "Get (query r) ''script'' \<noteq> []"
    and "GetScript cfg (Get (query r) ''script'') \<noteq> []"
    and "exec_Output e (probe_args cfg r) = (out, Some err)"
    and "w_status s = 0"
  shows "fst (metricsHandler cfg e r s) = Returned
    \<and> w_status (snd (metricsHandler cfg e r s)) = 200
    \<and> w_body (snd (metricsHandler cfg e r s)) = w_body s @
        concat (map (\<lambda>l. l @ [newline])
          [''# HELP script_success Script exit status (0 = error, 1 = success).'',
           ''# TYPE script_success gauge'',
           ''script_success{} 0'',
           ''# HELP script_duration_seconds Script execution time, in seconds.'',
           ''# TYPE script_duration_seconds gauge'',
           ''script_duration_seconds{} '' @ Sprintf_f (script_seconds e)])
    \<and> (\<exists>w f. Sprintf_f (script_seconds e) = w @ ''.'' @ f \<and> w \<noteq> [] \<and> list_all is_digit w
           \<and> length f = 6 \<and> list_all is_digit f)"
proof -
  have "metricsHandler cfg e r s =
      (Returned, Write (synthetic 0 (script_seconds e))
         (log_Printf (''Script failed: '' @ err @ [newline])
           ((Header_Set ''Content-Type'' ''text/plain'' s)
              \<lparr>started := started s @ [probe_args cfg r]\<rparr>)))"
    using assms
    by (simp add: metricsHandler_def Let_def probe_args_def runScript_def Header_Set_def)
  moreover have "synthetic 0 us =
        concat (map (\<lambda>l. l @ [newline])
          [''# HELP script_success Script exit status (0 = error, 1 = success).'',
           ''# TYPE script_success gauge'',
           ''script_success{} 0'',
           ''# HELP script_duration_seconds Script execution time, in seconds.'',
           ''# TYPE script_duration_seconds gauge'',
           ''script_duration_seconds{} '' @ Sprintf_f us])" for us
    by (simp add: synthetic_def scriptSuccessHelp_def scriptSuccessType_def namespace_def
        scriptDurationSecondsHelp_def scriptDurationSecondsType_def digit_char_def
        char_of_eq_iff)
  ultimately show ?thesis
    using assms(4) Sprintf_f_shape [of "script_seconds e"] by (simp add: writer_defs)
qed

theorem failed_script_witness:
  "Get (query (probe [(''script'', ''ping'')])) ''script'' \<noteq> []
   \<and> GetScript ping_config (Get (query (probe [(''script'', ''ping'')])) ''script'') \<noteq> []
   \<and> exec_Output failing_env (probe_args ping_config (probe [(''script'', ''ping'')]))
       = (''partial{} 1'', Some ''exit status 1'')
   \<and> w_status fresh = 0
   \<and> fst (metricsHandler ping_config failing_env (probe [(''script'', ''ping'')]) fresh)
       = Returned
   \<and> w_status (snd (metricsHandler ping_config failing_env (probe [(''script'', ''ping'')])
        fresh)) = 200
   \<and> w_body (snd (metricsHandler ping_config failing_env (probe [(''script'', ''ping'')])
        fresh)) =
        concat (map (\<lambda>l. l @ [newline])
          [''# HELP script_success Script exit status (0 = error, 1 = success).'',
           ''# TYPE script_success gauge'',
           ''script_success{} 0'',
           ''# HELP script_duration_seconds Script execution time, in seconds.'',
           ''# TYPE script_duration_seconds gauge'',
           ''script_duration_seconds{} 1.234567''])"
proof -
  have a: "Get (query (probe [(''script'', ''ping'')])) ''script'' \<noteq> []"
    by (simp add: probe_def Get_def)
  have b: "GetScript ping_config (Get (query (probe [(''script'', ''ping'')])) ''script'') \<noteq> []"
    by (simp add: probe_def Get_def GetScript_def ping_config_def)
  have c: "exec_Output failing_env (probe_args ping_config (probe [(''script'', ''ping'')]))
       = (''partial{} 1'', Some ''exit status 1'')"
    by (simp add: failing_env_def)
  have d: "w_status fresh = 0" by (simp add: fresh_def)
  have f: "Sprintf_f (script_seconds failing_env) = ''1.234567''"
    by (simp add: failing_env_def Sprintf_f_def digit_char_def char_of_eq_iff)
  show ?thesis
    using failed_script [OF a b c d] a b c d f by (simp add: fresh_def)
qed

text \<open>
  C10. When the script of a request is registered, its command line runs without error
  and the \<open>output\<close> parameter of the request is \<open>ignore\<close>, the handler returns with status
  200 and a body of exactly the six synthetic lines, with \<open>script_success{} 1\<close>; the text
  the script printed (\<open>out\<close>, any text) is not looked at.
\<close>

theorem output_ignored:
  assumes "Get (query r) ''script'' \<noteq> []"
    and "GetScript cfg (Get (query r) ''script'') \<noteq> []"
    and "exec_Output e (probe_args cfg r) = (out, None)"
    and "Get (query r) ''output'' = ''ignore''"
    and "w_status s = 0"
  shows "fst (metricsHandler cfg e r s) = Returned
    \<and> w_status (snd (metricsHandler cfg e r s)) = 200
    \<and> w_body (snd (metricsHandler cfg e r s)) = w_body s @
        concat (map (\<lambda>l. l @ [newline])
          [''# HELP script_success Script exit status (0 = error, 1 = success).'',
           ''# TYPE script_success gauge'',
           ''script_success{} 1'',
           ''# HELP script_duration_seconds Script execution time, in seconds.'',
           ''# TYPE script_duration_seconds gauge'',
           ''script_duration_seconds{} '' @ Sprintf_f (script_seconds e)])"
proof -
  have "metricsHandler cfg e r s =
      (Returned, Write (synthetic 1 (script_seconds e))
           ((Header_Set ''Content-Type'' ''text/plain'' s)
              \<lparr>started := started s @ [probe_args cfg r]\<rparr>))"
    using assms
    by (simp add: metricsHandler_def Let_def probe_args_def runScript_def Header_Set_def)
  moreover have "synthetic 1 us =
        concat (map (\<lambda>l. l @ [newline])
          [''# HELP script_success Script exit status (0 = error, 1 = success).'',
           ''# TYPE script_success gauge'',
           ''script_success{} 1'',
           ''# HELP script_duration_seconds Script execution time, in seconds.'',
           ''# TYPE script_duration_seconds gauge'',
           ''script_duration_seconds{} '' @ Sprintf_f us])" for us
    by (simp add: synthetic_def scriptSuccessHelp_def scriptSuccessType_def namespace_def
        scriptDurationSecondsHelp_def scriptDurationSecondsType_def digit_char_def
        char_of_eq_iff)
  ultimately show ?thesis
    using assms(5) by (simp add: writer_defs)
qed

theorem output_ignored_witness:
  "Get (query (probe [(''script'', ''ping''), (''output'', ''ignore'')])) ''script'' \<noteq> []
   \<and> GetScript ping_config
        (Get (query (probe [(''script'', ''ping''), (''output'', ''ignore'')])) ''script'') \<noteq> []
   \<and> exec_Output (printing_env ''up{} 1'')
        (probe_args ping_config (probe [(''script'', ''ping''), (''output'', ''ignore'')]))
       = (''up{} 1'', None)
   \<and> Get (query (probe [(''script'', ''ping''), (''output'', ''ignore'')])) ''output''
       = ''ignore''
   \<and> w_status fresh = 0
   \<and> fst (metricsHandler ping_config (printing_env ''up{} 1'')
        (probe [(''script'', ''ping''), (''output'', ''ignore'')]) fresh) = Returned
   \<and> w_status (snd (metricsHandler ping_config (printing_env ''up{} 1'')
        (probe [(''script'', ''ping''), (''output'', ''ignore'')]) fresh)) = 200
   \<and> w_body (snd (metricsHandler ping_config (printing_env ''up{} 1'')
        (probe [(''script'', ''ping''), (''output'', ''ignore'')]) fresh)) =
        concat (map (\<lambda>l. l @ [newline])
          [''# HELP script_success Script exit status (0 = error, 1 = success).'',
           ''# TYPE script_success gauge'',
           ''script_success{} 1'',
           ''# HELP script_duration_seconds Script execution time, in seconds.'',
           ''# TYPE script_duration_seconds gauge'',
           ''script_duration_seconds{} 1.234567''])"
proof -
  let ?r = "probe [(''script'', ''ping''), (''output'', ''ignore'')]"
  have a: "Get (query ?r) ''script'' \<noteq> []"
    by (simp add: probe_def Get_def)
  have b: "GetScript ping_config (Get (query ?r) ''script'') \<noteq> []"
    by (simp add: probe_def Get_def GetScript_def ping_config_def)
  have c: "exec_Output (printing_env ''up{} 1'') (probe_args ping_config ?r)
       = (''up{} 1'', None)"
    by (simp add: printing_env_def)
  have d: "Get (query ?r) ''output'' = ''ignore''"
    by (simp add: probe_def Get_def)
  have e: "w_status fresh = 0" by (simp add: fresh_def)
  have f: "Sprintf_f (script_seconds (printing_env ''up{} 1'')) = ''1.234567''"
    by (simp add: printing_env_def Sprintf_f_def digit_char_def char_of_eq_iff)
  show ?thesis
    using output_ignored [OF a b c d e] a b c d e f by (simp add: fresh_def)
qed

section \<open>Properties of the line transformer\<close>

lemma compile_pattern1_plain: "regexp_Compile (pattern1 []) = Ok re1_plain"
  by code_simp

lemma compile_pattern2_plain: "regexp_Compile (pattern2 []) = Ok re2_plain"
  by code_simp

lemma compile_pattern1_paren: "regexp_Compile (pattern1 ''(_'') = Err ''missing closing )''"
  by code_simp

lemma compile_pattern2_paren: "regexp_Compile (pattern2 ''(_'') = Err ''missing closing )''"
  by code_simp

lemma find_up_abc: "FindAllString re1_plain ''up{} abc'' = [''up{} '']"
  by code_simp

lemma match_up_abc: "MatchString re2_plain ''up{} abc''"
  by code_simp

lemma format_line_up_abc:
  "format_line (Some re1_plain) (Some re2_plain) [] ''up{} abc'' = Some (''up{} abc'' @ [newline])"
  by (simp add: format_line_def Trim_def find_up_abc match_up_abc Replace_comma_def)

lemma scan_up_abc: "scan_lines ''up{} abc'' = [''up{} abc'']"
  by (simp add: scan_lines_def raw_lines_def dropCR_def)

lemma scan_up_1: "scan_lines ''up{} 1'' = [''up{} 1'']"
  by (simp add: scan_lines_def raw_lines_def dropCR_def)

lemma synthetic_lines:
  "synthetic k us =
        concat (map (\<lambda>l. l @ [newline])
          [''# HELP script_success Script exit status (0 = error, 1 = success).'',
           ''# TYPE script_success gauge'',
           ''script_success{} '' @ decimal k,
           ''# HELP script_duration_seconds Script execution time, in seconds.'',
           ''# TYPE script_duration_seconds gauge'',
           ''script_duration_seconds{} '' @ Sprintf_f us])"
    by (simp add: synthetic_def scriptSuccessHelp_def scriptSuccessType_def namespace_def
        scriptDurationSecondsHelp_def scriptDurationSecondsType_def)

text \<open>
  C1. The claim has a sample line dropped when what follows its \<open>name{labels}\<close> segment is
  no number. The handler does not drop it: for a script that prints the one line
  \<open>up{} abc\<close>, the body holds that line after the six synthetic ones (and the empty line
  the format ends with). The second expression ends in \<open>[0-9|\\.]*\<close> with no anchor
  after it, so it matches whatever follows the segment.
\<close>

theorem non_numeric_value_emitted:
  "fst (metricsHandler ping_config (printing_env ''up{} abc'') (probe [(''script'', ''ping'')])
      fresh) = Returned
   \<and> w_body (snd (metricsHandler ping_config (printing_env ''up{} abc'')
      (probe [(''script'', ''ping'')]) fresh)) =
        concat (map (\<lambda>l. l @ [newline])
          [''# HELP script_success Script exit status (0 = error, 1 = success).'',
           ''# TYPE script_success gauge'',
           ''script_success{} 1'',
           ''# HELP script_duration_seconds Script execution time, in seconds.'',
           ''# TYPE script_duration_seconds gauge'',
           ''script_duration_seconds{} 1.234567'',
           ''up{} abc'',
           ''''])"
proof -
  have "metricsHandler ping_config (printing_env ''up{} abc'') (probe [(''script'', ''ping'')])
      fresh = format_output (printing_env ''up{} abc'') [] ''up{} abc''
          ((Header_Set ''Content-Type'' ''text/plain'' fresh)
              \<lparr>started := started fresh @ [[''/bin/ping'', ''-c'', ''1'']]\<rparr>)"
    by (simp add: metricsHandler_def Let_def probe_def Get_def GetScript_def ping_config_def
        runScript_def printing_env_def Header_Set_def)
  then show ?thesis
    by (simp add: format_output_def compile_pattern1_plain compile_pattern2_plain scan_up_abc
        format_line_up_abc synthetic_lines Write_def WriteHeader_def fresh_def Header_Set_def
        printing_env_def Sprintf_f_def digit_char_def char_of_eq_iff)
qed

text \<open>
  C3. The claim has the handler complete for every prefix. For the prefix \<open>(\<close> the two
  patterns do not compile (a parenthesis is left open), the errors are discarded, and the
  first method call on the nil expression panics: the handler does not return, and
  nothing has been written to the response.
\<close>

theorem probe_panics_on_open_paren:
  "fst (metricsHandler ping_config (printing_env ''up{} 1'')
        (probe [(''script'', ''ping''), (''prefix'', ''('')]) fresh) = Panicked
   \<and> w_status (snd (metricsHandler ping_config (printing_env ''up{} 1'')
        (probe [(''script'', ''ping''), (''prefix'', ''('')]) fresh)) = 0
   \<and> w_body (snd (metricsHandler ping_config (printing_env ''up{} 1'')
        (probe [(''script'', ''ping''), (''prefix'', ''('')]) fresh)) = []"
proof -
  have "metricsHandler ping_config (printing_env ''up{} 1'')
        (probe [(''script'', ''ping''), (''prefix'', ''('')]) fresh
        = format_output (printing_env ''up{} 1'') ''(_'' ''up{} 1''
          ((Header_Set ''Content-Type'' ''text/plain'' fresh)
              \<lparr>started := started fresh @ [[''/bin/ping'', ''-c'', ''1'']]\<rparr>)"
    by (simp add: metricsHandler_def Let_def probe_def Get_def GetScript_def ping_config_def
        runScript_def printing_env_def Header_Set_def)
  then show ?thesis
    by (simp add: format_output_def compile_pattern1_paren compile_pattern2_paren scan_up_1
        format_line_def Trim_def fresh_def Header_Set_def)
qed


section \<open>Properties of the instrumentation\<close>

text \<open>
  C4. For a request with a script name that is not empty and is valid UTF-8, whose inner
  handler returns or panics: the inner handler runs on the state in which the gauge of
  that script is one higher; \<open>instrumentScript\<close> ends the way the inner handler did; the
  gauge of the script is then one lower than the inner handler left it; so when the inner
  handler leaves the gauges alone, they are all back at their values from before the
  request. A request with an empty script name is handed to the inner handler and nothing
  else happens. For a script name that is not empty and not valid UTF-8 the function
  panics on the state it was given: no gauge is touched and the inner handler is not
  called.
\<close>

theorem inflight_balanced:
  "(Get (query r) ''script'' \<noteq> [] \<and> ValidString (Get (query r) ''script'')
      \<and> next r (gauge_Inc (Get (query r) ''script'') s) = (ex, s') \<and> ex \<noteq> Beyond
    \<longrightarrow> inflight (gauge_Inc (Get (query r) ''script'') s) (Get (query r) ''script'')
          = inflight s (Get (query r) ''script'') + 1
        \<and> fst (instrumentScript e next r s) = ex
        \<and> inflight (snd (instrumentScript e next r s)) (Get (query r) ''script'')
          = inflight s' (Get (query r) ''script'') - 1
        \<and> (inflight s' = inflight (gauge_Inc (Get (query r) ''script'') s)
           \<longrightarrow> inflight (snd (instrumentScript e next r s)) = inflight s))
   \<and> (Get (query r) ''script'' = [] \<longrightarrow> instrumentScript e next r s = next r s)
   \<and> (Get (query r) ''script'' \<noteq> [] \<and> \<not> ValidString (Get (query r) ''script'')
        \<longrightarrow> instrumentScript e next r s = (Panicked, s))"
  by (cases ex) (auto simp: instrumentScript_def Let_def gauge_Inc_def gauge_Dec_def
      counter_Inc_def Observe_def fun_eq_iff)

text \<open>
  The script \<open>ping\<close> with an inner handler that panics, a request without a script name,
  and the script name of the one byte \<open>0xFF\<close>.
\<close>

theorem inflight_balanced_witness:
  "Get (query (probe [(''script'', ''ping'')])) ''script'' \<noteq> []
   \<and> ValidString (Get (query (probe [(''script'', ''ping'')])) ''script'')
   \<and> fst (instrumentScript failing_env (\<lambda>r s. (Panicked, s)) (probe [(''script'', ''ping'')])
        fresh) = Panicked
   \<and> inflight (snd (instrumentScript failing_env (\<lambda>r s. (Panicked, s))
        (probe [(''script'', ''ping'')]) fresh)) = inflight fresh
   \<and> instrumentScript failing_env (\<lambda>r s. (Panicked, s)) (probe []) fresh = (Panicked, fresh)
   \<and> \<not> ValidString (Get (query (probe [(''script'', [CHR 0xFF])])) ''script'')
   \<and> instrumentScript failing_env (\<lambda>r s. (Returned, s)) (probe [(''script'', [CHR 0xFF])])
        fresh = (Panicked, fresh)"
proof -
  let ?r = "probe [(''script'', ''ping'')]"
  let ?q = "probe [(''script'', [CHR 0xFF])]"
  have sn: "Get (query ?r) ''script'' = ''ping''" by (simp add: probe_def Get_def)
  have v: "ValidString ''ping''" by (simp add: byte_def)
  have n: "(\<lambda>r s. (Panicked, s)) ?r (gauge_Inc (Get (query ?r) ''script'') fresh)
      = (Panicked, gauge_Inc (Get (query ?r) ''script'') fresh)" by simp
  have e: "Get (query (probe [])) ''script'' = []" by (simp add: probe_def Get_def)
  have q: "Get (query ?q) ''script'' = [CHR 0xFF]" by (simp add: probe_def Get_def)
  have w: "\<not> ValidString [CHR 0xFF]" by (simp add: byte_def)
  show ?thesis
    using inflight_balanced [of ?r "\<lambda>r s. (Panicked, s)" fresh Panicked
        "gauge_Inc (Get (query ?r) ''script'') fresh" failing_env]
      inflight_balanced [of "probe []" "\<lambda>r s. (Panicked, s)" fresh Panicked fresh failing_env]
      inflight_balanced [of ?q "\<lambda>r s. (Returned, s)" fresh Panicked fresh failing_env]
      sn v n e q w
    by simp
qed

text \<open>
  The claim has the gauge go up and down for every script name that is not empty. The
  request \<open>script=%FF\<close> has a script name that is not empty; the inner handler, called
  with it, would answer 400 and return; under \<open>instrumentScript\<close> the request ends in a
  panic with no gauge touched and nothing written, the inner handler never called.
\<close>

theorem non_utf8_script_not_counted:
  "Get (query (probe [(''script'', [CHR 0xFF])])) ''script'' \<noteq> []
   \<and> fst (metricsHandler ping_config failing_env (probe [(''script'', [CHR 0xFF])]) fresh)
       = Returned
   \<and> w_status (snd (metricsHandler ping_config failing_env
        (probe [(''script'', [CHR 0xFF])]) fresh)) = 400
   \<and> instrumentScript failing_env (metricsHandler ping_config failing_env)
        (probe [(''script'', [CHR 0xFF])]) fresh = (Panicked, fresh)"
  by (simp add: instrumentScript_def metricsHandler_def Let_def probe_def Get_def byte_def
      GetScript_def ping_config_def writer_defs fresh_def)

section \<open>Properties of the authentication gate\<close>

lemma Split_nonempty: "Split s c \<noteq> []"
  by (induction s) (auto split: list.splits)

lemma Split_Nil_length: "length (Split [] c) = 1"
  by simp

lemma bearer_token_cases:
  "bearer_token r = Some tok \<longleftrightarrow>
     (length (Split (authorization r) (CHR '' '')) = 2
      \<and> ToLower (Split (authorization r) (CHR '' '') ! 0) = ''bearer''
      \<and> tok = Split (authorization r) (CHR '' '') ! 1)"
proof (cases "Split (authorization r) (CHR '' '')")
  case Nil
  then show ?thesis by (simp add: bearer_token_def)
next
  case (Cons a as)
  then show ?thesis
    by (cases as; cases "tl as") (auto simp: bearer_token_def)
qed

lemma auth_eq:
  "auth cfg e h r s =
    (if basic_active cfg \<and> \<not> basic_passes cfg r then unauthorized (challenge cfg s)
     else if \<not> bearer_active cfg then h r (challenge cfg s)
     else (case bearer_token r of
             None \<Rightarrow> unauthorized (challenge cfg s)
           | Some tok \<Rightarrow>
               (case checkJWT cfg e tok of
                  Ok u \<Rightarrow> h r (challenge cfg s)
                | Err m \<Rightarrow> unauthorized (challenge cfg s)
                | Unmodelled \<Rightarrow> (Beyond, challenge cfg s))))"
proof -
  have b: "(BasicAuth r = None \<or> fst (the (BasicAuth r)) \<noteq> basic_username cfg
            \<or> snd (the (BasicAuth r)) \<noteq> basic_password cfg) \<longleftrightarrow> \<not> basic_passes cfg r"
    by (cases "BasicAuth r") (auto simp: basic_passes_def)
  show ?thesis
  proof (cases "bearer_token r")
    case None
    then have "authorization r = [] \<or> length (Split (authorization r) (CHR '' '')) \<noteq> 2
       \<or> ToLower (Split (authorization r) (CHR '' '') ! 0) \<noteq> ''bearer''"
      using bearer_token_cases [of r] by auto
    then show ?thesis using b None
      by (auto simp: auth_def Let_def)
  next
    case (Some tok)
    then have "length (Split (authorization r) (CHR '' '')) = 2"
      "ToLower (Split (authorization r) (CHR '' '') ! 0) = ''bearer''"
      "tok = Split (authorization r) (CHR '' '') ! 1"
      using bearer_token_cases [of r tok] by auto
    moreover from this have "authorization r \<noteq> []" by auto
    ultimately show ?thesis using b Some
      by (auto simp: auth_def Let_def split: outcome.splits)
  qed
qed

lemma unauthorized_response:
  "w_status s = 0 \<Longrightarrow>
     w_status (snd (unauthorized s)) = 401
     \<and> w_body (snd (unauthorized s)) = w_body s @ ''Not authorized'' @ [newline]"
  by (simp add: unauthorized_def http_Error_def Write_def WriteHeader_def Header_Set_def)

lemma challenge_keeps: "w_status (challenge cfg s) = w_status s" "w_body (challenge cfg s) = w_body s"
  by (simp_all add: challenge_def Header_Set_def)



lemma wrong_password_request:
  "BasicAuth (with_header ''Basic dXNlcjpwYXM='') = Some (''user'', ''pas'')"
  by code_simp



text \<open>
  C9. Whichever check a request fails (no Basic credentials, a wrong user name, a wrong
  password, no Authorization header, a header that is not two words, a scheme other
  than bearer, a token that does not validate), the gate does the same: it returns after
  \<open>http.Error\<close> with the message "Not authorized" and the code 401, so that on a fresh
  response the status is 401 and the body is that message and a newline.
\<close>

theorem denials_are_uniform:
  assumes "fails cfg e r d"
  shows "auth cfg e h r s = (Returned, http_Error ''Not authorized'' 401 (challenge cfg s))
    \<and> (w_status s = 0 \<longrightarrow>
         w_status (snd (auth cfg e h r s)) = 401
         \<and> w_body (snd (auth cfg e h r s)) = w_body s @ ''Not authorized'' @ [newline])"
proof -
  have "auth cfg e h r s = unauthorized (challenge cfg s)"
  proof (cases d)
    case NoBasicCredentials
    then show ?thesis using assms by (auto simp: auth_eq basic_passes_def)
  next
    case WrongUsername
    then show ?thesis using assms by (auto simp: auth_eq basic_passes_def split: option.splits)
  next
    case WrongPassword
    then show ?thesis using assms by (auto simp: auth_eq basic_passes_def split: option.splits)
  next
    case NoAuthorizationHeader
    then show ?thesis using assms by (auto simp: auth_eq bearer_token_def)
  next
    case MalformedHeader
    then have "bearer_token r = None"
      using assms bearer_token_cases [of r] by (cases "bearer_token r") auto
    then show ?thesis using assms MalformedHeader by (auto simp: auth_eq)
  next
    case WrongScheme
    then have "bearer_token r = None"
      using assms bearer_token_cases [of r] by (cases "bearer_token r") auto
    then show ?thesis using assms WrongScheme by (auto simp: auth_eq)
  next
    case InvalidToken
    then show ?thesis using assms
      by (auto simp: auth_eq split: option.splits outcome.splits)
  qed
  then show ?thesis
    using unauthorized_response [of "challenge cfg s"]
    by (simp add: challenge_keeps unauthorized_def)
qed

theorem denials_are_uniform_witness:
  "fails both_config failing_env (with_header []) NoBasicCredentials
   \<and> fails both_config failing_env (with_header ''Basic dXNlcjpwYXM='') WrongPassword
   \<and> auth both_config failing_env (metricsHandler both_config failing_env)
        (with_header []) fresh
      = auth both_config failing_env (metricsHandler both_config failing_env)
        (with_header ''Basic dXNlcjpwYXM='') fresh
   \<and> w_status (snd (auth both_config failing_env (metricsHandler both_config failing_env)
        (with_header []) fresh)) = 401
   \<and> w_body (snd (auth both_config failing_env (metricsHandler both_config failing_env)
        (with_header []) fresh)) = ''Not authorized'' @ [newline]"
proof -
  have a: "fails both_config failing_env (with_header []) NoBasicCredentials"
    by (simp add: both_config_def BasicAuth_def with_header_def)
  have b: "fails both_config failing_env (with_header ''Basic dXNlcjpwYXM='') WrongPassword"
    by (simp add: wrong_password_request) (simp add: both_config_def)
  have d: "w_status fresh = 0" "w_body fresh = []" by (simp_all add: fresh_def)
  note u1 = denials_are_uniform [OF a, of "metricsHandler both_config failing_env" fresh]
  note u2 = denials_are_uniform [OF b, of "metricsHandler both_config failing_env" fresh]
  have e: "auth both_config failing_env (metricsHandler both_config failing_env)
        (with_header []) fresh
      = auth both_config failing_env (metricsHandler both_config failing_env)
        (with_header ''Basic dXNlcjpwYXM='') fresh"
    using u1 [THEN conjunct1] u2 [THEN conjunct1] by (rule trans [OF _ sym])
  have st: "w_status (snd (auth both_config failing_env
        (metricsHandler both_config failing_env) (with_header []) fresh)) = 401
     \<and> w_body (snd (auth both_config failing_env (metricsHandler both_config failing_env)
        (with_header []) fresh)) = ''Not authorized'' @ [newline]"
    using u1 [THEN conjunct2] d by simp
  show ?thesis using a b e st by blast
qed

section \<open>Properties of the tokens\<close>






















lemma Split_none: "sep \<notin> set s \<Longrightarrow> Split s sep = [s]"
  by (induction s) auto











section \<open>Properties of well-formed sample lines\<close>

subsection \<open>The matcher on anchored expressions\<close>

declare ends.simps(9) [simp del]

text \<open>Whatever an expression leaves of a text is an end of that text.\<close>

lemma ends_suffix: "t \<in> set (ends re b s) \<Longrightarrow> \<exists>u. s = u @ t"
proof (induction re b s arbitrary: t rule: ends.induct)
  case (3 c b s)
  then show ?case by (cases s) (auto split: if_splits)
next
  case (4 neg rs b s)
  then have "t = rune_rest s" by (cases s) (auto split: if_splits)
  then have "s = take (rune_width s) s @ t" by (simp add: rune_rest_def)
  then show ?case by blast
next
  case (5 b s)
  then have "t = rune_rest s" by (cases s) (auto split: if_splits)
  then have "s = take (rune_width s) s @ t" by (simp add: rune_rest_def)
  then show ?case by blast
next
  case (9 r b s)
  from "9.prems" consider "t = s"
    | t' where "t' \<in> set (ends r b s)" "length t' < length s" "t \<in> set (ends (Star r) False t')"
    by (subst (asm) ends.simps(9)) (auto split: if_splits)
  then show ?case
  proof cases
    case 1
    then show ?thesis by simp
  next
    case 2
    from "9.IH"(1) [OF 2(1)] obtain u where u: "s = u @ t'" by blast
    from "9.IH"(2) [OF 2(1) 2(2) 2(3)] obtain v where "t' = v @ t" by blast
    with u show ?thesis by auto
  qed
next
  case (10 r b s)
  from "10.prems" obtain t' where t': "t' \<in> set (ends r b s)"
    and t: "t \<in> set (ends (Star r) (b \<and> length t' = length s) t')"
    by auto
  from "10.IH"(1) [OF t'] obtain u where u: "s = u @ t'" by blast
  from "10.IH"(2) [OF t' t] obtain v where "t' = v @ t" by blast
  with u show ?case by auto
next
  case (12 r1 r2 b s)
  from "12.prems" obtain t' where t': "t' \<in> set (ends r1 b s)"
    and t: "t \<in> set (ends r2 (b \<and> length t' = length s) t')"
    by auto
  from "12.IH"(1) [OF t'] obtain u where u: "s = u @ t'" by blast
  from "12.IH"(2) [OF t' t] obtain v where "t' = v @ t" by blast
  with u show ?case by auto
qed (auto split: if_splits)

lemma ends_literal_then:
  "ends (Concat (Literal c) R) b s =
     (case s of [] \<Rightarrow> [] | x # t \<Rightarrow> if x = c then ends R False t else [])"
  by (cases s) auto

lemma ends_begin_then_start: "ends (Concat BeginText R) True s = ends R True s"
  by simp

lemma ends_begin_then_later: "ends (Concat BeginText R) False s = []"
  by simp

lemma find_from_begin_later: "find_from (Concat BeginText R) False s = None"
proof (induction "length s" arbitrary: s rule: less_induct)
  case less
  show ?case
  proof (cases s)
    case Nil
    then show ?thesis by simp
  next
    case (Cons c cs)
    have "length (drop (rune_width (c # cs) - 1) cs) < length s" using Cons by simp
    from less [OF this] show ?thesis using Cons by simp
  qed
qed


subsection \<open>Runes never swallow an ASCII byte\<close>

lemma rune_width_pos: "1 \<le> rune_width (c # cs)"
  by (simp add: Let_def split: list.splits)

lemma rune_width_ascii: "byte c < 0x80 \<Longrightarrow> rune_width (c # cs) = 1"
  by (simp add: Let_def)

lemma rune_width_cont: "rune_width (c # xs) \<le> Suc (length (takeWhile cont xs))"
proof -
  consider "byte c < 0xC2" | "0xC2 \<le> byte c" "byte c < 0xE0"
    | "0xE0 \<le> byte c" "byte c < 0xF0" | "0xF0 \<le> byte c" "byte c < 0xF5" | "0xF5 \<le> byte c"
    by linarith
  then show ?thesis
  proof cases
    case 1
    then show ?thesis by (simp add: Let_def)
  next
    case 2
    then show ?thesis by (cases xs) (simp_all add: Let_def)
  next
    case 3
    then have w: "rune_width (c # xs) =
        (case xs of
           c1 # c2 # _ \<Rightarrow>
             if (if byte c = 0xE0 then 0xA0 else 0x80) \<le> byte c1
                \<and> byte c1 \<le> (if byte c = 0xED then 0x9F else 0xBF) \<and> cont c2
             then 3 else 1
         | _ \<Rightarrow> 1)"
      by (simp add: Let_def)
    show ?thesis
    proof (cases xs)
      case Nil
      then show ?thesis using w by simp
    next
      case (Cons c1 r)
      then show ?thesis using w by (cases r) (auto simp: cont_def split: if_splits)
    qed
  next
    case 4
    then have w: "rune_width (c # xs) =
        (case xs of
           c1 # c2 # c3 # _ \<Rightarrow>
             if (if byte c = 0xF0 then 0x90 else 0x80) \<le> byte c1
                \<and> byte c1 \<le> (if byte c = 0xF4 then 0x8F else 0xBF) \<and> cont c2 \<and> cont c3
             then 4 else 1
         | _ \<Rightarrow> 1)"
      by (simp add: Let_def)
    show ?thesis
    proof (cases xs)
      case Nil
      then show ?thesis using w by simp
    next
      case (Cons c1 r)
      note xs = this
      show ?thesis
      proof (cases r)
        case Nil
        then show ?thesis using w xs by simp
      next
        case (Cons c2 r2)
        then show ?thesis using w xs by (cases r2) (auto simp: cont_def split: if_splits)
      qed
    qed
  next
    case 5
    then show ?thesis by (simp add: Let_def)
  qed
qed

declare rune_width.simps [simp del]

lemma takeWhile_stops: "\<not> P d \<Longrightarrow> length (takeWhile P (xs @ d # ys)) \<le> length xs"
  by (induction xs) auto

lemma rune_rest_keeps:
  assumes "\<not> cont d"
  shows "\<exists>k \<le> length cs. drop (rune_width (c # cs @ d # t) - 1) (cs @ d # t) = drop k cs @ d # t"
proof -
  let ?k = "rune_width (c # cs @ d # t) - 1"
  have "rune_width (c # cs @ d # t) \<le> Suc (length (takeWhile cont (cs @ d # t)))"
    by (rule rune_width_cont)
  also have "\<dots> \<le> Suc (length cs)" using takeWhile_stops [of cont d cs t, OF assms] by simp
  finally have "?k \<le> length cs" by simp
  then have "drop ?k (cs @ d # t) = drop ?k cs @ d # t" by simp
  with \<open>?k \<le> length cs\<close> show ?thesis by blast
qed

subsection \<open>The pieces of the two expressions\<close>

lemma star_any_flag: "ends (Star AnyCharNotNL) b s = ends (Star AnyCharNotNL) False s"
  by (subst ends.simps(9), subst (2) ends.simps(9)) simp

lemma star_any_step:
  assumes "c \<noteq> newline"
  shows "ends (Star AnyCharNotNL) b (c # cs)
     = ends (Star AnyCharNotNL) False (drop (rune_width (c # cs) - 1) cs) @ [c # cs]"
proof -
  have "1 \<le> rune_width (c # cs)" using rune_width_pos by simp
  then have "drop (rune_width (c # cs)) (c # cs) = drop (rune_width (c # cs) - 1) cs"
    by (cases "rune_width (c # cs)") simp_all
  moreover from \<open>1 \<le> rune_width (c # cs)\<close>
  have "length (drop (rune_width (c # cs) - 1) cs) < length (c # cs)" by simp
  ultimately show ?thesis
    using assms by (subst ends.simps(9)) (simp add: rune_rest_def)
qed

lemma star_any_reaches:
  assumes "newline \<notin> set u" "\<not> cont d"
  shows "\<exists>E. ends (Star AnyCharNotNL) b (u @ d # t) = ends (Star AnyCharNotNL) False (d # t) @ E"
  using assms(1)
proof (induction "length u" arbitrary: u b rule: less_induct)
  case less
  show ?case
  proof (cases u)
    case Nil
    then show ?thesis using star_any_flag [of b "d # t"] by simp
  next
    case (Cons c cs)
    then have c: "c \<noteq> newline" and cs: "newline \<notin> set cs" using less.prems by auto
    from rune_rest_keeps [OF assms(2), of cs c t] obtain k where k: "k \<le> length cs"
      and d: "drop (rune_width (c # cs @ d # t) - 1) (cs @ d # t) = drop k cs @ d # t"
      by blast
    have "length (drop k cs) < length u" using Cons by simp
    moreover have "newline \<notin> set (drop k cs)" using cs by (auto dest: in_set_dropD)
    ultimately obtain E where
      "ends (Star AnyCharNotNL) False (drop k cs @ d # t) = ends (Star AnyCharNotNL) False (d # t) @ E"
      using less.hyps by blast
    then show ?thesis
      using star_any_step [OF c, of b "cs @ d # t"] d Cons by simp
  qed
qed

lemma concat_map_skip:
  assumes "\<And>t. t \<in> set E0 \<Longrightarrow> f t = []"
  shows "concat (map f (E0 @ x # E)) = f x @ concat (map f E)"
  using assms by (induction E0) auto

text \<open>
  \<open>.*}\<close> and what follows: the greedy star comes back to the last closing brace, when
  the text after that brace has no brace.
\<close>

lemma any_then_brace:
  assumes "newline \<notin> set labels" "CHR ''}'' \<notin> set tail"
  shows "\<exists>E. ends (Concat (Star AnyCharNotNL) (Concat (Literal (CHR ''}'')) R)) b
               (labels @ CHR ''}'' # tail) = ends R False tail @ E"
proof -
  let ?f = "\<lambda>t. case t of [] \<Rightarrow> [] | x # t' \<Rightarrow> if x = CHR ''}'' then ends R False t' else []"
  have nc: "\<not> cont (CHR ''}'')" by (simp add: cont_def byte_def)
  from star_any_reaches [OF assms(1) nc] obtain E where
    E: "ends (Star AnyCharNotNL) b (labels @ CHR ''}'' # tail)
          = ends (Star AnyCharNotNL) False (CHR ''}'' # tail) @ E" by blast
  have "ends (Star AnyCharNotNL) False (CHR ''}'' # tail)
          = ends (Star AnyCharNotNL) False tail @ [CHR ''}'' # tail]"
    using star_any_step [of "CHR ''}''" False tail] rune_width_ascii [of "CHR ''}''" tail]
    by (simp add: byte_def)
  with E have E': "ends (Star AnyCharNotNL) b (labels @ CHR ''}'' # tail)
          = ends (Star AnyCharNotNL) False tail @ (CHR ''}'' # tail) # E" by simp
  have skip: "?f t = []" if "t \<in> set (ends (Star AnyCharNotNL) False tail)" for t
  proof -
    from ends_suffix [OF that] obtain u where "tail = u @ t" by blast
    then have "CHR ''}'' \<notin> set t" using assms(2) by auto
    then show ?thesis by (cases t) auto
  qed
  have "ends (Concat (Star AnyCharNotNL) (Concat (Literal (CHR ''}'')) R)) b
          (labels @ CHR ''}'' # tail)
        = concat (map ?f (ends (Star AnyCharNotNL) b (labels @ CHR ''}'' # tail)))"
    by (subst ends.simps(12)) (simp only: ends_literal_then)
  also have "\<dots> = ?f (CHR ''}'' # tail) @ concat (map ?f E)"
    unfolding E' using skip by (rule concat_map_skip)
  also have "?f (CHR ''}'' # tail) = ends R False tail" by simp
  finally show ?thesis by blast
qed

lemma word_char_ascii: "word_char c \<Longrightarrow> byte c < 0x80"
  by (auto simp: word_char_def perl_w_def between_def byte_def)

lemma word_char_not_brace: "word_char c \<Longrightarrow> c \<noteq> CHR ''{''"
  by (auto simp: word_char_def perl_w_def between_def byte_def)

lemma brace_not_word: "\<not> in_ranges perl_w (CHR ''{'')"
  by (simp add: perl_w_def between_def byte_def)

lemma blank_space: "blank c \<Longrightarrow> in_ranges perl_s c \<and> byte c < 0x80 \<and> c \<noteq> CHR ''}''"
  by (auto simp: blank_def perl_s_def between_def byte_def)

lemma value_char_facts:
  "value_char c \<Longrightarrow> \<not> in_ranges perl_s c \<and> c \<noteq> CHR ''}'' \<and> c \<noteq> CHR '' ''"
  by (auto simp: value_char_def is_digit_def perl_s_def between_def byte_def)

lemma class_step_ascii:
  assumes "in_ranges rs c" "byte c < 0x80"
  shows "ends (CharClass False rs) b (c # cs) = [cs]"
  using assms rune_width_ascii [of c cs] by (simp add: rune_rest_def)

lemma star_class_step:
  assumes "in_ranges rs c" "byte c < 0x80"
  shows "ends (Star (CharClass False rs)) b (c # cs)
           = ends (Star (CharClass False rs)) False cs @ [c # cs]"
  by (subst ends.simps(9)) (simp only: class_step_ascii [OF assms], simp)

lemma star_class_stop:
  assumes "\<not> in_ranges rs c"
  shows "ends (Star (CharClass False rs)) b (c # cs) = [c # cs]"
  using assms by (subst ends.simps(9)) simp

lemma star_nonempty: "ends (Star r) b s \<noteq> []"
  by (subst ends.simps(9)) simp

text \<open>\<open>\\w*{\<close> and what follows: the star takes the whole name.\<close>

lemma star_word_then_brace:
  assumes "list_all word_char name"
  shows "ends (Concat (Star (CharClass False perl_w)) (Concat (Literal (CHR ''{'')) R)) b
           (name @ CHR ''{'' # rest) = ends R False rest"
  using assms
proof (induction name arbitrary: b)
  case Nil
  show ?case
    by (subst ends.simps(12))
      (simp add: star_class_stop [OF brace_not_word] ends_literal_then del: ends.simps(12))
next
  case (Cons c cs)
  then have c: "word_char c" and cs: "list_all word_char cs" by simp_all
  have step: "ends (Star (CharClass False perl_w)) b (c # cs @ CHR ''{'' # rest)
      = ends (Star (CharClass False perl_w)) False (cs @ CHR ''{'' # rest)
        @ [c # cs @ CHR ''{'' # rest]"
    using c by (intro star_class_step) (simp_all add: word_char_ascii, simp add: word_char_def)
  have ih: "ends (Concat (Star (CharClass False perl_w)) (Concat (Literal (CHR ''{'')) R)) False
           (cs @ CHR ''{'' # rest) = ends R False rest"
    using Cons.IH [OF cs] .
  show ?case
    using ih word_char_not_brace [OF c]
    by (subst ends.simps(12), subst (asm) ends.simps(12))
      (simp add: step ends_literal_then del: ends.simps(12))
qed

text \<open>\<open>\\s+\<close> before a value: the first way to match takes all the blanks.\<close>

lemma star_space_first:
  assumes "list_all blank ws" "v \<noteq> []" "\<not> in_ranges perl_s (hd v)"
  shows "\<exists>E. ends (Star (CharClass False perl_s)) b (ws @ v) = v # E"
  using assms(1)
proof (induction ws arbitrary: b)
  case Nil
  from assms(2,3) show ?case
    by (cases v) (simp_all add: star_class_stop)
next
  case (Cons w ws)
  then have w: "blank w" and ws: "list_all blank ws" by simp_all
  from Cons.IH [OF ws] obtain E where
    "ends (Star (CharClass False perl_s)) False (ws @ v) = v # E" by blast
  then show ?case
    using star_class_step [of perl_s w b "ws @ v"] blank_space [OF w] by simp
qed

lemma plus_space_first:
  assumes "ws \<noteq> []" "list_all blank ws" "v \<noteq> []" "\<not> in_ranges perl_s (hd v)"
  shows "\<exists>E. ends (Plus (CharClass False perl_s)) b (ws @ v) = v # E"
proof -
  from assms(1) obtain w ws' where ws: "ws = w # ws'" by (cases ws) auto
  then have w: "blank w" and ws': "list_all blank ws'" using assms(2) by simp_all
  from star_space_first [OF ws' assms(3,4)] obtain E where
    "ends (Star (CharClass False perl_s)) False (ws' @ v) = v # E" by blast
  then show ?thesis
    using ws class_step_ascii [of perl_s w b "ws' @ v"] blank_space [OF w] by simp
qed

lemma concat_of_cons: "rs \<noteq> [] \<Longrightarrow> concat_of (r # rs) = Concat r (concat_of rs)"
  by (cases rs) simp_all

lemma literals_then:
  assumes "rs \<noteq> []"
  shows "ends (concat_of (map Literal p @ rs)) b (p @ t) = ends (concat_of rs) (b \<and> p = []) t"
proof (induction p arbitrary: b)
  case Nil
  then show ?case by simp
next
  case (Cons c p)
  have "concat_of (map Literal (c # p) @ rs)
      = Concat (Literal c) (concat_of (map Literal p @ rs))"
    using assms by (simp add: concat_of_cons)
  then show ?case
    using Cons [of False] by (simp add: ends_literal_then del: ends.simps(12))
qed

text \<open>The first expression on a well-formed sample line: its first match ends at the value.\<close>

lemma tail_match:
  assumes "list_all word_char name" "newline \<notin> set labels" "ws \<noteq> []" "list_all blank ws"
    "v \<noteq> []" "list_all value_char v"
    "\<exists>E. ends R False (ws @ v) = x # E"
  shows "\<exists>E. ends (Concat (Star (CharClass False perl_w)) (Concat (Literal (CHR ''{''))
                (Concat (Star AnyCharNotNL) (Concat (Literal (CHR ''}'')) R)))) b
              (name @ ''{'' @ labels @ ''}'' @ ws @ v) = x # E"
proof -
  have nb: "CHR ''}'' \<notin> set (ws @ v)"
    using assms(4,6) blank_space value_char_facts by (auto simp: list_all_iff)
  from any_then_brace [OF assms(2) nb, of R False] obtain E where
    "ends (Concat (Star AnyCharNotNL) (Concat (Literal (CHR ''}'')) R)) False
       (labels @ CHR ''}'' # ws @ v) = ends R False (ws @ v) @ E" by blast
  with assms(7) obtain E' where
    "ends (Concat (Star AnyCharNotNL) (Concat (Literal (CHR ''}'')) R)) False
       (labels @ CHR ''}'' # ws @ v) = x # E'" by auto
  then show ?thesis
    using star_word_then_brace [OF assms(1), of
        "Concat (Star AnyCharNotNL) (Concat (Literal (CHR ''}'')) R)" b "labels @ CHR ''}'' # ws @ v"]
    by simp
qed

lemma re1_of_eq:
  "re1_of p = Concat BeginText (concat_of (map Literal p @ tail1))"
  by (simp add: re1_of_def concat_of_cons tail1_def)

lemma re2_of_eq:
  "re2_of p = Concat BeginText (concat_of (map Literal p @ tail1 @ [value_class]))"
  by (simp add: re2_of_def concat_of_cons tail1_def)

lemma re1_match:
  assumes "list_all word_char name" "newline \<notin> set labels" "ws \<noteq> []" "list_all blank ws"
    "v \<noteq> []" "list_all value_char v"
  shows "\<exists>E. ends (re1_of p) True (p @ name @ ''{'' @ labels @ ''}'' @ ws @ v) = v # E"
proof -
  have hv: "\<not> in_ranges perl_s (hd v)"
    using assms(5,6) value_char_facts by (cases v) auto
  have "\<exists>E. ends (Plus (CharClass False perl_s)) False (ws @ v) = v # E"
    by (rule plus_space_first [OF assms(3,4,5) hv])
  from tail_match [OF assms this]
  obtain E where "ends (concat_of tail1) (p = []) (name @ ''{'' @ labels @ ''}'' @ ws @ v) = v # E"
    unfolding tail1_def by auto
  then show ?thesis
    using literals_then [of tail1 p True "name @ ''{'' @ labels @ ''}'' @ ws @ v"]
    by (simp add: re1_of_eq tail1_def del: ends.simps(12) add: ends_begin_then_start)
qed

lemma re2_match:
  assumes "list_all word_char name" "newline \<notin> set labels" "ws \<noteq> []" "list_all blank ws"
    "v \<noteq> []" "list_all value_char v"
  shows "ends (re2_of p) True (p @ name @ ''{'' @ labels @ ''}'' @ ws @ v) \<noteq> []"
proof -
  have hv: "\<not> in_ranges perl_s (hd v)"
    using assms(5,6) value_char_facts by (cases v) auto
  from plus_space_first [OF assms(3,4,5) hv] obtain E where
    "ends (Plus (CharClass False perl_s)) False (ws @ v) = v # E" by blast
  moreover obtain y Y where "ends value_class False v = y # Y"
    using star_nonempty [of _ False v] unfolding value_class_def
    by (cases "ends (Star (CharClass False
          [(CHR ''0'', CHR ''9''), (CHR ''|'', CHR ''|''), (CHR ''.'', CHR ''.'')])) False v") auto
  ultimately have "\<exists>E. ends (Concat (Plus (CharClass False perl_s)) value_class) False (ws @ v)
      = y # E"
    using assms(3) by simp
  from tail_match [OF assms this]
  obtain E where "ends (concat_of (tail1 @ [value_class])) (p = [])
      (name @ ''{'' @ labels @ ''}'' @ ws @ v) = y # E"
    unfolding tail1_def by auto
  then show ?thesis
    using literals_then [of "tail1 @ [value_class]" p True "name @ ''{'' @ labels @ ''}'' @ ws @ v"]
    by (simp add: re2_of_eq tail1_def del: ends.simps(12) add: ends_begin_then_start)
qed

subsection \<open>One line through the transformer\<close>

declare allMatches.simps [simp del]

lemma find_from_hit: "ends re b s = t # E \<Longrightarrow> find_from re b s = Some (s, t)"
  by (cases s) simp_all

lemma allMatches_begin_later: "allMatches (Concat BeginText R) False s prev = []"
  by (subst allMatches.simps) (simp add: find_from_begin_later)

lemma FindAllString_anchored:
  assumes "ends (Concat BeginText R) True (m @ v) = v # E" "m \<noteq> []"
  shows "FindAllString (Concat BeginText R) (m @ v) = [m]"
  unfolding FindAllString_def
  by (subst allMatches.simps)
    (simp add: find_from_hit [OF assms(1)] assms(2) allMatches_begin_later)

lemma Trim_keeps:
  assumes "s \<noteq> []" "hd s \<noteq> CHR '' ''" "last s \<noteq> CHR '' ''"
  shows "Trim s = s"
proof -
  have a: "dropWhile (\<lambda>c. c = CHR '' '') s = s"
    using assms(1,2) by (cases s) simp_all
  have "rev s \<noteq> []" "hd (rev s) \<noteq> CHR '' ''"
    using assms(1,3) by (simp_all add: hd_rev)
  then have "dropWhile (\<lambda>c. c = CHR '' '') (rev s) = rev s"
    by (cases "rev s") simp_all
  then show ?thesis by (simp add: Trim_def a)
qed

lemma Replace_comma_value:
  "list_all value_char v \<Longrightarrow> list_all value_char (Replace_comma v)"
  by (induction v) (auto simp: Replace_comma_def value_char_def)

lemma sample_line_trimmed:
  assumes "list_all word_char name" "v \<noteq> []" "list_all value_char v"
  shows "Trim (name @ ''{'' @ labels @ ''}'' @ ws @ v) = name @ ''{'' @ labels @ ''}'' @ ws @ v"
    and "take 1 (name @ ''{'' @ labels @ ''}'' @ ws @ v) \<noteq> ''#''"
proof -
  have h: "hd (name @ ''{'' @ labels @ ''}'' @ ws @ v) \<noteq> CHR '' ''"
    "hd (name @ ''{'' @ labels @ ''}'' @ ws @ v) \<noteq> CHR ''#''"
    using assms(1) by (cases name; auto simp: word_char_def perl_w_def between_def byte_def)+
  have "last v \<in> set v" using assms(2) by simp
  then have "value_char (last v)" using assms(3) by (simp add: list_all_iff)
  then have l: "last (name @ ''{'' @ labels @ ''}'' @ ws @ v) \<noteq> CHR '' ''"
    using assms(2) value_char_facts by auto
  show "Trim (name @ ''{'' @ labels @ ''}'' @ ws @ v) = name @ ''{'' @ labels @ ''}'' @ ws @ v"
    using h(1) l by (intro Trim_keeps) simp_all
  show "take 1 (name @ ''{'' @ labels @ ''}'' @ ws @ v) \<noteq> ''#''"
    using h(2) by (cases name) auto
qed

lemma format_sample_line:
  assumes "list_all word_char name" "newline \<notin> set labels" "ws \<noteq> []" "list_all blank ws"
    "v \<noteq> []" "list_all value_char v"
  shows "format_line (Some (re1_of p)) (Some (re2_of p)) p (name @ ''{'' @ labels @ ''}'' @ ws @ v)
      = Some (p @ name @ ''{'' @ labels @ ''}'' @ ws @ Replace_comma v @ [newline])"
proof -
  let ?m = "p @ name @ ''{'' @ labels @ ''}'' @ ws"
  from re1_match [OF assms, of p] obtain E where
    "ends (re1_of p) True (?m @ v) = v # E" by auto
  then have f: "FindAllString (re1_of p) (?m @ v) = [?m]"
    unfolding re1_of_eq by (intro FindAllString_anchored) simp_all
  have v': "Replace_comma v \<noteq> []" "list_all value_char (Replace_comma v)"
    using assms(5) Replace_comma_value [OF assms(6)] by (simp_all add: Replace_comma_def)
  from re2_match [OF assms(1-4) v', of p] obtain t E' where
    "ends (re2_of p) True (?m @ Replace_comma v) = t # E'"
    by (cases "ends (re2_of p) True (?m @ Replace_comma v)") auto
  then have m: "MatchString (re2_of p) (?m @ Replace_comma v)"
    by (simp add: MatchString_def find_from_hit)
  have ne: "name @ ''{'' @ labels @ ''}'' @ ws @ v \<noteq> []" by simp
  show ?thesis
    using f m ne sample_line_trimmed [OF assms(1,5,6), of labels ws]
    by (simp add: format_line_def Let_def)
qed

subsection \<open>Compiling the patterns\<close>

lemma above_expressions: "above (map Rx xs) = (rev xs, [])"
  by (induction xs) simp_all

lemma parse_end: "parse_loop [] (map Rx xs) lr = Ok (concat_of (rev xs))"
proof -
  have "p_concat (map Rx xs) = [Rx (concat_of (rev xs))]"
    unfolding p_concat_def above_expressions by simp
  then show ?thesis
    by (simp add: close_group_def swapVerticalBar_def p_alternate_def)
qed

lemma plain_token:
  "plain_char c \<Longrightarrow> parse_token c t st lr = Ok (0, Rx (Literal c) # st, False)"
  by (auto simp: plain_char_def parse_token_def)

lemma parse_plain:
  assumes "list_all plain_char p"
  shows "parse_loop (p @ rest) (map Rx xs) False
           = parse_loop rest (map Rx (rev (map Literal p) @ xs)) False"
  using assms
proof (induction p arbitrary: xs)
  case Nil
  then show ?case by simp
next
  case (Cons c p)
  then have c: "plain_char c" and p: "list_all plain_char p" by simp_all
  show ?case
    using Cons.IH [OF p, of "Literal c # xs"] by (simp add: plain_token [OF c])
qed

lemma parse_tail1:
  "take 1 rest \<noteq> ''?'' \<Longrightarrow>
   parse_loop ([backslash] @ ''w*{.*}'' @ [backslash] @ ''s+'' @ rest) (map Rx xs) False
     = parse_loop rest (map Rx (rev tail1 @ xs)) True"
  by (simp add: tail1_def parse_token_def p_repeat_def perl_class_def parseRepeat_ok_def
      parseInt_def is_digit_def between_def byte_def escape_char_def isalnum_def)

lemma parse_value_class:
  "parse_loop (''[0-9|'' @ [backslash] @ ''.]*'') (map Rx xs) lr
     = parse_loop [] (map Rx (value_class # xs)) True"
  by (simp add: value_class_def parse_token_def p_repeat_def perl_class_def parseClass_def
      class_item_def parseClassChar_def is_digit_def between_def byte_def escape_char_def
      isalnum_def)

lemma plain_ascii: "list_all plain_char p \<Longrightarrow> \<not> list_ex (\<lambda>c. 128 \<le> byte c) p"
  by (induction p) (auto simp: plain_char_def)

lemma compile_pattern1:
  assumes "list_all plain_char p"
  shows "regexp_Compile (pattern1 p) = Ok (re1_of p)"
proof -
  have "parse_loop (pattern1 p) [] False
      = parse_loop (p @ [backslash] @ ''w*{.*}'' @ [backslash] @ ''s+'' @ []) (map Rx [BeginText]) False"
    by (simp add: pattern1_def parse_token_def)
  also have "\<dots> = parse_loop [] (map Rx (rev tail1 @ rev (map Literal p) @ [BeginText])) True"
    unfolding parse_plain [OF assms] by (rule parse_tail1) simp
  also have "\<dots> = Ok (re1_of p)"
    unfolding parse_end by (simp add: re1_of_def)
  finally show ?thesis
    using plain_ascii [OF assms] by (simp add: regexp_Compile_def pattern1_def byte_def)
qed

lemma compile_pattern2:
  assumes "list_all plain_char p"
  shows "regexp_Compile (pattern2 p) = Ok (re2_of p)"
proof -
  have "parse_loop (pattern2 p) [] False
      = parse_loop (p @ [backslash] @ ''w*{.*}'' @ [backslash] @ ''s+''
          @ (''[0-9|'' @ [backslash] @ ''.]*'')) (map Rx [BeginText]) False"
    by (simp add: pattern2_def parse_token_def)
  also have "\<dots> = parse_loop (''[0-9|'' @ [backslash] @ ''.]*'')
      (map Rx (rev tail1 @ rev (map Literal p) @ [BeginText])) True"
    unfolding parse_plain [OF assms] by (rule parse_tail1) simp
  also have "\<dots> = parse_loop []
      (map Rx (value_class # rev tail1 @ rev (map Literal p) @ [BeginText])) True"
    by (rule parse_value_class)
  also have "\<dots> = Ok (re2_of p)"
    unfolding parse_end by (simp add: re2_of_def)
  finally show ?thesis
    using plain_ascii [OF assms] by (simp add: regexp_Compile_def pattern2_def byte_def)
qed

subsection \<open>A script that prints one sample line\<close>

text \<open>
  For a prefix of plain bytes and a script whose whole output is one well-formed sample
  line shorter than the scanner's limit, the part of \<open>metricsHandler\<close> that formats the
  output writes the synthetic lines, the line with the prefix in front and the commas of
  its value turned into full stops, and the empty line the format ends with.
\<close>

lemma sample_chars_not_newline:
  "word_char c \<Longrightarrow> c \<noteq> newline"
  "blank c \<Longrightarrow> c \<noteq> newline"
  "value_char c \<Longrightarrow> c \<noteq> newline \<and> c \<noteq> CHR 0x0D"
  by (auto simp: word_char_def perl_w_def blank_def value_char_def is_digit_def between_def
      byte_def)

lemma sample_line_scanned:
  assumes "list_all word_char name" and "newline \<notin> set labels"
    and "list_all blank ws" and "v \<noteq> []" and "list_all value_char v"
    and "length (name @ ''{'' @ labels @ ''}'' @ ws @ v) < 65536"
  shows "scan_lines (name @ ''{'' @ labels @ ''}'' @ ws @ v)
           = [name @ ''{'' @ labels @ ''}'' @ ws @ v]"
proof -
  let ?l = "name @ ''{'' @ labels @ ''}'' @ ws @ v"
  have "newline \<notin> set name"
    using assms(1) sample_chars_not_newline(1) by (auto simp: list_all_iff)
  moreover have "newline \<notin> set ws"
    using assms(3) sample_chars_not_newline(2) by (auto simp: list_all_iff)
  moreover have "newline \<notin> set v"
    using assms(5) sample_chars_not_newline(3) by (auto simp: list_all_iff)
  ultimately have "newline \<notin> set ?l" using assms(2) by simp
  then have "Split ?l newline = [?l]" by (rule Split_none)
  then have r: "raw_lines ?l = [?l]" by (simp add: raw_lines_def)
  have "last v \<in> set v" using assms(4) by simp
  then have "value_char (last v)" using assms(5) by (simp add: list_all_iff)
  then have "last v \<noteq> CHR 0x0D" using sample_chars_not_newline(3) by blast
  then have "last ?l \<noteq> CHR 0x0D" using assms(4) by simp
  then have d: "dropCR ?l = ?l" by (simp add: dropCR_def)
  have "takeWhile (\<lambda>l. length l < 65536) [?l] = [?l]"
    using assms(6) by (simp only: takeWhile.simps if_True)
  then show ?thesis unfolding scan_lines_def r using d by simp
qed

lemma plain_prefix_sample_output:
  assumes "list_all plain_char p"
    and "list_all word_char name" and "newline \<notin> set labels"
    and "ws \<noteq> []" and "list_all blank ws"
    and "v \<noteq> []" and "list_all value_char v"
    and "length (name @ ''{'' @ labels @ ''}'' @ ws @ v) < 65536"
  shows "format_output e p (name @ ''{'' @ labels @ ''}'' @ ws @ v) s
    = (Returned,
       Write (synthetic 1 (script_seconds e)
              @ (p @ name @ ''{'' @ labels @ ''}'' @ ws @ Replace_comma v @ [newline])
              @ [newline]) s)"
  using sample_line_scanned [OF assms(2,3,5,6,7,8)] format_sample_line [OF assms(2-7), of p]
  by (simp add: format_output_def compile_pattern1 [OF assms(1)] compile_pattern2 [OF assms(1)])

subsection \<open>A prefix that is not plain\<close>

lemma compile_pattern1_plus:
  "regexp_Compile (pattern1 ''a+b_'')
     = Ok (concat_of (BeginText # Plus (Literal (CHR ''a'')) # Literal (CHR ''b'')
            # Literal (CHR ''_'') # tail1))"
  by code_simp

lemma compile_pattern2_plus:
  "regexp_Compile (pattern2 ''a+b_'')
     = Ok (concat_of (BeginText # Plus (Literal (CHR ''a'')) # Literal (CHR ''b'')
            # Literal (CHR ''_'') # tail1 @ [value_class]))"
  by code_simp

lemma format_line_plus:
  "format_line
     (Some (concat_of (BeginText # Plus (Literal (CHR ''a'')) # Literal (CHR ''b'')
            # Literal (CHR ''_'') # tail1)))
     (Some (concat_of (BeginText # Plus (Literal (CHR ''a'')) # Literal (CHR ''b'')
            # Literal (CHR ''_'') # tail1 @ [value_class])))
     ''a+b_'' (''up{l='' @ [dquote] @ ''v'' @ [dquote] @ ''} 123.45'') = Some []"
  by code_simp

lemma scan_sample:
  "scan_lines (''up{l='' @ [dquote] @ ''v'' @ [dquote] @ ''} 123.45'')
     = [''up{l='' @ [dquote] @ ''v'' @ [dquote] @ ''} 123.45'']"
  by (simp add: scan_lines_def raw_lines_def dropCR_def)

text \<open>
  C2. The claim has every sample line come out with the prefix in front, for every
  prefix. The handler does that for the prefix \<open>net\<close>: the line \<open>up{l="v"} 123.45\<close> is
  in the body as \<open>net_up{l="v"} 123.45\<close>. It does not for the prefix \<open>a+b\<close>: the prefix
  goes into the two patterns as it is, not quoted, so the first pattern starts \<open>^a+b_\<close>
  and does not match the prefixed line, which starts \<open>a+b_\<close>; the sample is left out of
  the body, which holds the six synthetic lines and the empty line only.
\<close>

theorem metacharacter_prefix_drops_sample:
  "w_body (snd (metricsHandler ping_config
         (printing_env (''up{l='' @ [dquote] @ ''v'' @ [dquote] @ ''} 123.45''))
         (probe [(''script'', ''ping''), (''prefix'', ''net'')]) fresh)) =
        concat (map (\<lambda>l. l @ [newline])
          [''# HELP script_success Script exit status (0 = error, 1 = success).'',
           ''# TYPE script_success gauge'',
           ''script_success{} 1'',
           ''# HELP script_duration_seconds Script execution time, in seconds.'',
           ''# TYPE script_duration_seconds gauge'',
           ''script_duration_seconds{} 1.234567'',
           ''net_up{l='' @ [dquote] @ ''v'' @ [dquote] @ ''} 123.45'',
           ''''])
   \<and> fst (metricsHandler ping_config
         (printing_env (''up{l='' @ [dquote] @ ''v'' @ [dquote] @ ''} 123.45''))
         (probe [(''script'', ''ping''), (''prefix'', ''a+b'')]) fresh) = Returned
   \<and> w_body (snd (metricsHandler ping_config
         (printing_env (''up{l='' @ [dquote] @ ''v'' @ [dquote] @ ''} 123.45''))
         (probe [(''script'', ''ping''), (''prefix'', ''a+b'')]) fresh)) =
        concat (map (\<lambda>l. l @ [newline])
          [''# HELP script_success Script exit status (0 = error, 1 = success).'',
           ''# TYPE script_success gauge'',
           ''script_success{} 1'',
           ''# HELP script_duration_seconds Script execution time, in seconds.'',
           ''# TYPE script_duration_seconds gauge'',
           ''script_duration_seconds{} 1.234567'',
           ''''])"
proof -
  let ?out = "''up{l='' @ [dquote] @ ''v'' @ [dquote] @ ''} 123.45''"
  let ?s = "(Header_Set ''Content-Type'' ''text/plain'' fresh)
              \<lparr>started := started fresh @ [[''/bin/ping'', ''-c'', ''1'']]\<rparr>"
  have net: "metricsHandler ping_config (printing_env ?out)
         (probe [(''script'', ''ping''), (''prefix'', ''net'')]) fresh
      = format_output (printing_env ?out) ''net_'' ?out ?s"
    by (simp add: metricsHandler_def Let_def probe_def Get_def GetScript_def ping_config_def
        runScript_def printing_env_def Header_Set_def)
  have "format_output (printing_env ?out) ''net_''
          (''up'' @ ''{'' @ (''l='' @ [dquote] @ ''v'' @ [dquote]) @ ''}'' @ '' '' @ ''123.45'') ?s
      = (Returned,
         Write (synthetic 1 (script_seconds (printing_env ?out))
                @ (''net_'' @ ''up'' @ ''{'' @ (''l='' @ [dquote] @ ''v'' @ [dquote]) @ ''}''
                   @ '' '' @ Replace_comma ''123.45'' @ [newline])
                @ [newline]) ?s)"
    by (rule plain_prefix_sample_output)
      (simp_all add: plain_char_def word_char_def perl_w_def blank_def value_char_def
        is_digit_def between_def byte_def)
  then have a: "w_body (snd (format_output (printing_env ?out) ''net_'' ?out ?s))
      = concat (map (\<lambda>l. l @ [newline])
          [''# HELP script_success Script exit status (0 = error, 1 = success).'',
           ''# TYPE script_success gauge'',
           ''script_success{} 1'',
           ''# HELP script_duration_seconds Script execution time, in seconds.'',
           ''# TYPE script_duration_seconds gauge'',
           ''script_duration_seconds{} 1.234567'',
           ''net_up{l='' @ [dquote] @ ''v'' @ [dquote] @ ''} 123.45'',
           ''''])"
    by (simp add: synthetic_lines Write_def WriteHeader_def fresh_def Header_Set_def
        printing_env_def Sprintf_f_def digit_char_def char_of_eq_iff Replace_comma_def)
  have plus: "metricsHandler ping_config (printing_env ?out)
         (probe [(''script'', ''ping''), (''prefix'', ''a+b'')]) fresh
      = format_output (printing_env ?out) ''a+b_'' ?out ?s"
    by (simp add: metricsHandler_def Let_def probe_def Get_def GetScript_def ping_config_def
        runScript_def printing_env_def Header_Set_def)
  have b: "fst (format_output (printing_env ?out) ''a+b_'' ?out ?s) = Returned
     \<and> w_body (snd (format_output (printing_env ?out) ''a+b_'' ?out ?s))
      = concat (map (\<lambda>l. l @ [newline])
          [''# HELP script_success Script exit status (0 = error, 1 = success).'',
           ''# TYPE script_success gauge'',
           ''script_success{} 1'',
           ''# HELP script_duration_seconds Script execution time, in seconds.'',
           ''# TYPE script_duration_seconds gauge'',
           ''script_duration_seconds{} 1.234567'',
           ''''])"
    using format_line_plus scan_sample
    by (simp add: format_output_def compile_pattern1_plus compile_pattern2_plus
        synthetic_lines Write_def WriteHeader_def fresh_def Header_Set_def
        printing_env_def Sprintf_f_def digit_char_def char_of_eq_iff)
  show ?thesis
    unfolding net plus using a b by simp
qed

end
